theory Spec2Isabelle
  imports Main "HOL-Library.Sublist" "HOL-Library.Multiset"
begin

section \<open>Strings and POSIX paths\<close>

text \<open>
  Python strings are modelled as \<open>string\<close> (lists of bytes). \<open>t in s\<close> on two strings is
  the library's \<open>sublist t s\<close> (a contiguous occurrence), \<open>s.startswith(t)\<close> is
  \<open>prefix t s\<close>. \<open>str.lower\<close> is modelled on the ASCII letters; other bytes are unchanged.
\<close>

definition char_lower :: "char \<Rightarrow> char" where
  "char_lower c =
     (let n = (of_char c :: nat) in if 65 \<le> n \<and> n \<le> 90 then char_of (n + 32) else c)"

definition lower :: "string \<Rightarrow> string" where
  "lower s = map char_lower s"

text \<open>\<open>s.split(sep)\<close> for a one-character separator.\<close>

fun split_sep :: "char \<Rightarrow> string \<Rightarrow> string list" where
  "split_sep sep [] = [[]]"
| "split_sep sep (c # s) =
     (if c = sep then [] # split_sep sep s
      else (case split_sep sep s of [] \<Rightarrow> [[c]] | w # ws \<Rightarrow> (c # w) # ws))"

text \<open>\<open>sep.join(xs)\<close>.\<close>

fun join :: "string \<Rightarrow> string list \<Rightarrow> string" where
  "join sep [] = []"
| "join sep [x] = x"
| "join sep (x # y # ys) = x @ sep @ join sep (y # ys)"

text \<open>
  \<open>pathlib.Path(s)\<close> on a POSIX system: \<open>posixpath.splitroot\<close> gives the root (\<open>/\<close>, or
  \<open>//\<close> for exactly two leading slashes) and the rest, which is split at \<open>/\<close> with the
  empty and the \<open>.\<close> segments dropped.
\<close>

definition path_root :: "string \<Rightarrow> string" where
  "path_root s =
     (if take 1 s \<noteq> ''/'' then ''''
      else if take 1 (drop 1 s) \<noteq> ''/'' \<or> take 1 (drop 2 s) = ''/'' then ''/''
      else take 2 s)"

definition path_rel :: "string \<Rightarrow> string" where
  "path_rel s =
     (if take 1 s \<noteq> ''/'' then s
      else if take 1 (drop 1 s) \<noteq> ''/'' \<or> take 1 (drop 2 s) = ''/'' then drop 1 s
      else drop 2 s)"

definition path_tail :: "string \<Rightarrow> string list" where
  "path_tail s = filter (\<lambda>x. x \<noteq> [] \<and> x \<noteq> ''.'') (split_sep CHR ''/'' (path_rel s))"

text \<open>\<open>Path(s).parts\<close>, \<open>str(Path(s))\<close>, \<open>Path(s).name\<close> and \<open>Path(s).suffix\<close>.\<close>

definition path_parts :: "string \<Rightarrow> string list" where
  "path_parts s = (if path_root s \<noteq> [] then path_root s # path_tail s else path_tail s)"

definition path_str :: "string \<Rightarrow> string" where
  "path_str s =
     (let r = path_root s @ join ''/'' (path_tail s) in if r = [] then ''.'' else r)"

definition path_name :: "string \<Rightarrow> string" where
  "path_name s = (if path_tail s = [] then [] else last (path_tail s))"

text \<open>\<open>s.rfind(c)\<close>, with \<open>None\<close> for Python's \<open>-1\<close>.\<close>

definition rfind :: "char \<Rightarrow> string \<Rightarrow> nat option" where
  "rfind c s =
     (if c \<in> set s then Some (length s - 1 - length (takeWhile (\<lambda>x. x \<noteq> c) (rev s)))
      else None)"

definition path_suffix :: "string \<Rightarrow> string" where
  "path_suffix s =
     (let name = path_name s in
      case rfind CHR ''.'' name of
        None \<Rightarrow> []
      | Some i \<Rightarrow> if 0 < i \<and> i < length name - 1 then drop i name else [])"

section \<open>Document types and metadata\<close>

datatype DocumentType = CODE | DOCUMENTATION | CONFIGURATION | TEST | OTHER

fun type_value :: "DocumentType \<Rightarrow> string" where
  "type_value CODE = ''code''"
| "type_value DOCUMENTATION = ''documentation''"
| "type_value CONFIGURATION = ''configuration''"
| "type_value TEST = ''test''"
| "type_value OTHER = ''other''"

record DocumentMetadata =
  file_path :: string
  file_type :: DocumentType
  language :: "string option"
  size' :: int
  last_modified :: int
  project_id :: string

section \<open>The classifier of \<open>DocumentProcessor\<close> (processor.py)\<close>

definition DP_code_extensions :: "string list" where
  "DP_code_extensions =
     [''.py'', ''.js'', ''.ts'', ''.tsx'', ''.jsx'', ''.java'', ''.cpp'', ''.c'', ''.h'',
      ''.cs'', ''.php'', ''.rb'', ''.go'', ''.rs'', ''.swift'', ''.kt'', ''.scala'',
      ''.r'', ''.m'', ''.mm'', ''.sql'', ''.sh'', ''.bash'', ''.ps1'', ''.lua'', ''.pl'',
      ''.dart'', ''.vue'', ''.svelte'', ''.elm'', ''.clj'', ''.cljs'', ''.hs'', ''.ml'',
      ''.fs'', ''.vb'', ''.pas'', ''.asm'', ''.s'', ''.scss'', ''.sass'', ''.less'', ''.css'']"

definition DP_doc_extensions :: "string list" where
  "DP_doc_extensions =
     [''.md'', ''.txt'', ''.rst'', ''.adoc'', ''.org'', ''.tex'', ''.rtf'',
      ''.pdf'', ''.doc'', ''.docx'', ''.odt'', ''.html'', ''.htm'', ''.xml'']"

definition DP_config_extensions :: "string list" where
  "DP_config_extensions =
     [''.json'', ''.yaml'', ''.yml'', ''.toml'', ''.ini'', ''.cfg'', ''.conf'',
      ''.env'', ''.properties'', ''.plist'', ''.config'']"

definition DP_test_patterns :: "string list" where
  "DP_test_patterns =
     [''test_'', ''_test'', ''.test.'', ''.spec.'', ''_spec'', ''tests/'',
      ''test/'', ''__test__'', ''__tests__'']"

definition DP_language_map :: "(string \<times> string) list" where
  "DP_language_map =
     [(''.py'', ''python''), (''.js'', ''javascript''), (''.ts'', ''typescript''),
      (''.java'', ''java''), (''.cpp'', ''cpp''), (''.c'', ''c''), (''.h'', ''c''),
      (''.cs'', ''csharp''), (''.php'', ''php''), (''.rb'', ''ruby''), (''.go'', ''go''),
      (''.rs'', ''rust''), (''.swift'', ''swift''), (''.kt'', ''kotlin''), (''.scala'', ''scala''),
      (''.sql'', ''sql''), (''.sh'', ''bash''), (''.bash'', ''bash''), (''.ps1'', ''powershell''),
      (''.html'', ''html''), (''.css'', ''css''), (''.scss'', ''scss''), (''.sass'', ''sass''),
      (''.vue'', ''vue''), (''.svelte'', ''svelte''), (''.dart'', ''dart'')]"

text \<open>\<open>_classify_document\<close>: the argument is a \<open>Path\<close>, given here by its string.\<close>

definition DP_classify_document :: "string \<Rightarrow> DocumentType" where
  "DP_classify_document p =
     (let file_str = lower (path_str p);
          extension = lower (path_suffix p)
      in if \<exists>pattern \<in> set DP_test_patterns. sublist pattern file_str then TEST
         else if extension \<in> set DP_code_extensions then CODE
         else if extension \<in> set DP_doc_extensions then DOCUMENTATION
         else if extension \<in> set DP_config_extensions then CONFIGURATION
         else OTHER)"

definition DP_detect_language :: "string \<Rightarrow> string option" where
  "DP_detect_language p = map_of DP_language_map (lower (path_suffix p))"

section \<open>The classifier of \<open>SuperClaudeDocumentProcessor\<close> (document\_processor.py)\<close>

definition SC_code_extensions :: "string list" where
  "SC_code_extensions =
     [''.py'', ''.js'', ''.ts'', ''.tsx'', ''.jsx'', ''.java'', ''.cpp'', ''.c'', ''.h'',
      ''.cs'', ''.php'', ''.rb'', ''.go'', ''.rs'', ''.swift'', ''.kt'', ''.scala'',
      ''.r'', ''.m'', ''.mm'', ''.sql'', ''.sh'', ''.bash'', ''.ps1'', ''.lua'', ''.pl'']"

definition SC_doc_extensions :: "string list" where
  "SC_doc_extensions =
     [''.md'', ''.txt'', ''.rst'', ''.adoc'', ''.tex'', ''.doc'', ''.docx'', ''.pdf'']"

definition SC_config_extensions :: "string list" where
  "SC_config_extensions =
     [''.json'', ''.yaml'', ''.yml'', ''.toml'', ''.ini'', ''.conf'', ''.cfg'',
      ''.env'', ''.properties'', ''.xml'', ''.plist'']"

definition SC_test_patterns :: "string list" where
  "SC_test_patterns =
     [''test_'', ''_test'', ''.test.'', ''.spec.'', ''tests/'', ''test/'',
      ''__tests__/'', ''spec/'', ''cypress/'', ''e2e/'']"

definition SC_extension_map :: "(string \<times> string) list" where
  "SC_extension_map =
     [(''.py'', ''python''), (''.js'', ''javascript''), (''.ts'', ''typescript''),
      (''.tsx'', ''typescript''), (''.jsx'', ''javascript''), (''.java'', ''java''),
      (''.cpp'', ''cpp''), (''.c'', ''c''), (''.h'', ''c''), (''.cs'', ''csharp''),
      (''.php'', ''php''), (''.rb'', ''ruby''), (''.go'', ''go''), (''.rs'', ''rust''),
      (''.swift'', ''swift''), (''.kt'', ''kotlin''), (''.scala'', ''scala''),
      (''.r'', ''r''), (''.m'', ''objective-c''), (''.sql'', ''sql''),
      (''.sh'', ''bash''), (''.bash'', ''bash''), (''.ps1'', ''powershell'')]"

definition SC_get_file_type :: "string \<Rightarrow> DocumentType" where
  "SC_get_file_type p =
     (let extension = lower (path_suffix p);
          path_str = lower (path_str p)
      in if \<exists>pattern \<in> set SC_test_patterns. sublist pattern path_str then TEST
         else if extension \<in> set SC_code_extensions then CODE
         else if extension \<in> set SC_doc_extensions then DOCUMENTATION
         else if extension \<in> set SC_config_extensions then CONFIGURATION
         else OTHER)"

definition SC_get_language :: "string \<Rightarrow> string option" where
  "SC_get_language p = map_of SC_extension_map (lower (path_suffix p))"

section \<open>The environment: file system, remote service and scheduler\<close>

text \<open>
  Exceptions are values: an operation that can raise returns \<open>Inl\<close> of the exception.
  \<open>Path.stat\<close> on an entry that \<open>glob\<close> has yielded fails with an \<open>OSError\<close> only, so a
  failed lookup is \<open>None\<close>.
\<close>

datatype exn =
  ValueError string | RuntimeError string | OSError | PermissionError | ClientError | TimeoutError

record file_stat =
  st_size :: int
  st_mtime :: int

text \<open>
  Instrumentation of the uploads: \<open>Begin i\<close> when the upload of the work item at position
  \<open>i\<close> of the worklist starts to run, \<open>Settled i\<close> when it has returned.
\<close>

datatype event = Begin nat | Settled nat

text \<open>
  What a run observes of the outside world.

  \<^item> \<open>resolve\<close> is \<open>Path.resolve\<close>, which raises for some paths (a symbolic-link loop,
    an embedded null byte); \<open>path_exists\<close> is \<open>Path.exists\<close> and \<open>is_file\<close> is
    \<open>Path.is_file\<close>, which return \<open>False\<close> for a missing path and raise for other failures
    (\<open>PermissionError\<close>).
  \<^item> \<open>glob\<close> is the generator \<open>Path.glob\<close>: the entries it yields and, if it then raises
    instead of stopping, the exception.
  \<^item> \<open>stat_walk\<close> is \<open>Path.stat\<close> while the files are enumerated and filtered,
    \<open>stat_run\<close> the same call made later in the upload loop of
    \<open>DocumentProcessor.process_project\<close> (the file may have changed in between).
  \<^item> \<open>read_file\<close> is the result of opening (and reading) a file, \<open>post\<close> the status of
    the HTTP response to the upload of a file.
  \<^item> \<open>schedule\<close> is the event loop's choice among the uploads that \<open>asyncio.gather\<close>
    runs concurrently: given the log so far, a number that selects which of them runs next.
\<close>

record env =
  resolve :: "string \<Rightarrow> exn + string"
  path_exists :: "string \<Rightarrow> exn + bool"
  glob :: "string \<Rightarrow> string \<Rightarrow> string list \<times> exn option"
  is_file :: "string \<Rightarrow> exn + bool"
  stat_walk :: "string \<Rightarrow> file_stat option"
  stat_run :: "string \<Rightarrow> file_stat option"
  read_file :: "string \<Rightarrow> exn + string"
  post :: "string \<Rightarrow> exn + int"
  schedule :: "event list \<Rightarrow> nat"

record stats =
  total_files :: nat
  successful :: nat
  failed :: nat
  by_type :: "string \<rightharpoonup> nat"

text \<open>The count a \<open>by_type\<close> dictionary holds for a key (0 when the key is absent).\<close>

definition tally :: "(string \<rightharpoonup> nat) \<Rightarrow> string \<Rightarrow> nat" where
  "tally m k = (case m k of None \<Rightarrow> 0 | Some c \<Rightarrow> c)"

section \<open>\<open>DocumentProcessor\<close> (processor.py)\<close>

definition DP_exclusions :: "string list" where
  "DP_exclusions =
     [''.git'', ''__pycache__'', ''node_modules'', ''.pytest_cache'',
      ''.mypy_cache'', ''.coverage'', ''dist'', ''build'', ''.venv'',
      ''venv'', ''.env'', ''env'', ''.DS_Store'', ''Thumbs.db'']"

text \<open>\<open>_should_include_file\<close>.\<close>

definition DP_should_include_file ::
  "env \<Rightarrow> string \<Rightarrow> bool \<Rightarrow> bool \<Rightarrow> bool \<Rightarrow> bool \<Rightarrow> bool" where
  "DP_should_include_file e p include_code include_docs include_configs include_tests =
     (let doc_type = DP_classify_document p in
      if \<exists>excl \<in> set DP_exclusions. sublist excl (path_str p) then False
      else case stat_walk e p of
        None \<Rightarrow> False
      | Some s \<Rightarrow>
          if st_size s > 10 * 1024 * 1024 then False
          else if doc_type = CODE \<and> \<not> include_code then False
          else if doc_type = DOCUMENTATION \<and> \<not> include_docs then False
          else if doc_type = CONFIGURATION \<and> \<not> include_configs then False
          else if doc_type = TEST \<and> \<not> include_tests then False
          else True)"

text \<open>\<open>_upload_document\<close>: the body of the \<open>try\<close>, then the \<open>except Exception\<close> around it.\<close>

definition DP_upload_body :: "env \<Rightarrow> string \<Rightarrow> exn + bool" where
  "DP_upload_body e p =
     (case read_file e p of
        Inl x \<Rightarrow> Inl x
      | Inr file_content \<Rightarrow>
          (case post e p of
             Inl x \<Rightarrow> Inl x
           | Inr status \<Rightarrow> Inr (status = 200)))"

definition DP_upload_document :: "env \<Rightarrow> string \<Rightarrow> bool" where
  "DP_upload_document e p = (case DP_upload_body e p of Inl x \<Rightarrow> False | Inr b \<Rightarrow> b)"

text \<open>
  The \<open>DocumentMetadata(...)\<close> built for a file in the loop of \<open>process_project\<close>;
  \<open>None\<close> when \<open>file_path.stat()\<close> raises.
\<close>

definition DP_metadata :: "env \<Rightarrow> string \<Rightarrow> string \<Rightarrow> DocumentMetadata option" where
  "DP_metadata e pid p =
     (let doc_type = DP_classify_document p;
          lang = DP_detect_language p
      in case stat_run e p of
        None \<Rightarrow> None
      | Some file_stat \<Rightarrow>
          Some \<lparr>file_path = path_str p, file_type = doc_type, language = lang,
                size' = st_size file_stat, last_modified = st_mtime file_stat,
                project_id = pid\<rparr>)"

text \<open>\<open>by_type\<close> bookkeeping of \<open>process_project\<close>.\<close>

definition DP_track :: "(string \<rightharpoonup> nat) \<Rightarrow> string \<Rightarrow> (string \<rightharpoonup> nat)" where
  "DP_track m type_name =
     (let m' = (if m type_name = None then m(type_name \<mapsto> 0) else m)
      in m'(type_name \<mapsto> tally m' type_name + 1))"

text \<open>
  One iteration of \<open>for file_path in files_to_process\<close>, for the file at position \<open>i\<close>. The
  upload is awaited where it is called, so it has settled when the iteration ends.
\<close>

definition DP_process_file ::
  "env \<Rightarrow> string \<Rightarrow> nat \<times> string \<Rightarrow> stats \<times> event list \<Rightarrow> stats \<times> event list" where
  "DP_process_file e pid ip acc =
     (let st = fst acc; events = snd acc; i = fst ip; p = snd ip in
      case DP_metadata e pid p of
        None \<Rightarrow> (st\<lparr>failed := failed st + 1\<rparr>, events)
      | Some metadata \<Rightarrow>
          (let success = DP_upload_document e p;
               st1 = (if success then st\<lparr>successful := successful st + 1\<rparr>
                      else st\<lparr>failed := failed st + 1\<rparr>);
               type_name = type_value (file_type metadata)
           in (st1\<lparr>by_type := DP_track (by_type st1) type_name\<rparr>,
               events @ [Begin i, Settled i])))"

text \<open>
  What \<open>process_project\<close> returns: the dictionary with only an \<open>error\<close> key, or the
  statistics (with the \<open>message\<close> key of the empty run).
\<close>

datatype DP_result = Error_dict string | Stats_dict stats "string option"

text \<open>
  The loop over the entries of \<open>project_dir.glob(pattern)\<close> that collects
  \<open>files_to_process\<close>. \<open>file_path.is_file()\<close> is called first and outside any \<open>try\<close>: when
  it raises, the loop and the run are left with that exception.
\<close>

fun DP_files_to_process ::
  "env \<Rightarrow> string list \<Rightarrow> bool \<Rightarrow> bool \<Rightarrow> bool \<Rightarrow> bool \<Rightarrow> exn + string list" where
  "DP_files_to_process e [] include_code include_docs include_configs include_tests = Inr []"
| "DP_files_to_process e (p # ps) include_code include_docs include_configs include_tests =
     (case is_file e p of
        Inl x \<Rightarrow> Inl x
      | Inr isf \<Rightarrow>
          (case DP_files_to_process e ps include_code include_docs include_configs include_tests of
             Inl x \<Rightarrow> Inl x
           | Inr files \<Rightarrow>
               Inr (if isf \<and> DP_should_include_file e p include_code include_docs
                              include_configs include_tests
                    then p # files else files)))"

definition DP_upload_loop :: "env \<Rightarrow> string \<Rightarrow> string list \<Rightarrow> stats \<times> event list" where
  "DP_upload_loop e pid files =
     fold (DP_process_file e pid) (zip [0..<length files] files)
       (\<lparr>total_files = length files, successful = 0, failed = 0, by_type = Map.empty\<rparr>, [])"

text \<open>
  \<open>process_project\<close>. \<open>Path(project_path).resolve()\<close> comes first, then the existence
  test, then the walk; an exception of any of them leaves the function.
\<close>

definition DP_process_project ::
  "env \<Rightarrow> string \<Rightarrow> string \<Rightarrow> bool \<Rightarrow> bool \<Rightarrow> bool \<Rightarrow> bool \<Rightarrow> bool
     \<Rightarrow> (exn + DP_result) \<times> event list" where
  "DP_process_project e pid project_path include_code include_docs include_configs
       include_tests recursive =
     (case resolve e project_path of
        Inl x \<Rightarrow> (Inl x, [])
      | Inr project_dir \<Rightarrow>
          (case path_exists e project_dir of
             Inl x \<Rightarrow> (Inl x, [])
           | Inr ex \<Rightarrow>
               if \<not> ex
               then (Inr (Error_dict (''Project path does not exist: '' @ project_path)), [])
               else (let g = glob e project_dir (if recursive then ''**/*'' else ''*'') in
                     case DP_files_to_process e (fst g) include_code include_docs
                            include_configs include_tests of
                       Inl x \<Rightarrow> (Inl x, [])
                     | Inr files \<Rightarrow>
                         (case snd g of
                            Some x \<Rightarrow> (Inl x, [])
                          | None \<Rightarrow>
                              if files = []
                              then (Inr (Stats_dict
                                      \<lparr>total_files = 0, successful = 0, failed = 0,
                                       by_type = Map.empty\<rparr>
                                      (Some ''No files found to process'')), [])
                              else (let r = DP_upload_loop e pid files
                                    in (Inr (Stats_dict (fst r) None), snd r))))))"

text \<open>
  \<open>RAGClient.index_project\<close> (client.py): the call, inside \<open>try\<close> / \<open>except Exception\<close>.
  \<open>Failed_dict msg 0 0 1\<close> is the dictionary that the \<open>except\<close> branch returns, with the
  keys \<open>error\<close>, \<open>total_files\<close>, \<open>successful\<close> and \<open>failed\<close> in this order; \<open>exn_str\<close>
  stands for \<open>str(e)\<close>.
\<close>

definition exn_str :: "exn \<Rightarrow> string" where
  "exn_str x = (case x of ValueError m \<Rightarrow> m | RuntimeError m \<Rightarrow> m | OSError \<Rightarrow> ''OSError''
                | PermissionError \<Rightarrow> ''PermissionError''
                | ClientError \<Rightarrow> ''ClientError'' | TimeoutError \<Rightarrow> ''TimeoutError'')"

datatype client_result =
  Returned DP_result
| Failed_dict (fd_error: string) (fd_total_files: nat) (fd_successful: nat) (fd_failed: nat)

definition RAGClient_index_project ::
  "env \<Rightarrow> string \<Rightarrow> string \<Rightarrow> bool \<Rightarrow> bool \<Rightarrow> bool \<Rightarrow> bool \<Rightarrow> bool
     \<Rightarrow> client_result \<times> event list" where
  "RAGClient_index_project e pid project_path include_code include_docs include_configs
       include_tests recursive =
     (let r = DP_process_project e pid project_path include_code include_docs
                include_configs include_tests recursive
      in case fst r of
        Inr stats \<Rightarrow> (Returned stats, snd r)
      | Inl x \<Rightarrow> (Failed_dict (exn_str x) 0 0 1, snd r))"

section \<open>\<open>SuperClaudeDocumentProcessor\<close> (document\_processor.py)\<close>

definition SC_allowed_dotfiles :: "string list" where
  "SC_allowed_dotfiles = [''.gitignore'', ''.env.example'', ''.dockerignore'']"

definition SC_skip_dirs :: "string list" where
  "SC_skip_dirs =
     [''node_modules'', ''dist'', ''build'', ''__pycache__'', ''.git'',
      ''venv'', ''env'', ''.venv'', ''target'', ''bin'', ''obj'', ''out'']"

text \<open>\<open>_should_process_file\<close>; \<open>path = Path(file_path)\<close> is read through the path functions.\<close>

definition SC_should_process_file :: "string \<Rightarrow> string set \<Rightarrow> bool" where
  "SC_should_process_file fp include_patterns =
     (if (\<exists>part \<in> set (path_parts fp). prefix ''.'' part) \<and>
         path_name fp \<notin> set SC_allowed_dotfiles then False
      else if \<exists>skip_dir \<in> set SC_skip_dirs. sublist skip_dir (path_str fp) then False
      else if ''all'' \<in> include_patterns then True
      else (let ft = SC_get_file_type (path_str fp) in
              (''code'' \<in> include_patterns \<and> ft = CODE) \<or>
              (''docs'' \<in> include_patterns \<and> ft = DOCUMENTATION) \<or>
              (''configs'' \<in> include_patterns \<and> ft = CONFIGURATION) \<or>
              (''tests'' \<in> include_patterns \<and> ft = TEST)))"

text \<open>\<open>_upload_document\<close>: the body of the \<open>try\<close>, then the \<open>except Exception\<close> around it.\<close>

definition SC_upload_body :: "env \<Rightarrow> string \<Rightarrow> exn + bool" where
  "SC_upload_body e fp =
     (case read_file e fp of
        Inl x \<Rightarrow> Inl x
      | Inr file \<Rightarrow>
          (case post e fp of
             Inl x \<Rightarrow> Inl x
           | Inr status \<Rightarrow> Inr (status = 200)))"

definition SC_upload_document :: "env \<Rightarrow> string \<Rightarrow> bool" where
  "SC_upload_document e fp =
     (case SC_upload_body e fp of Inl x \<Rightarrow> False | Inr b \<Rightarrow> b)"

text \<open>
  The walk of \<open>index_project\<close>: what one entry of \<open>project_path.glob(pattern)\<close> adds to
  \<open>files_to_process\<close>. \<open>file_path.is_file()\<close> is called first and outside the \<open>try\<close>, so
  its exception leaves the run; inside the \<open>try\<close>, an entry whose \<open>stat\<close> raises is skipped.
\<close>

definition SC_work_item ::
  "env \<Rightarrow> string \<Rightarrow> string set \<Rightarrow> string \<Rightarrow> exn + (string \<times> DocumentMetadata) option" where
  "SC_work_item e pid include_patterns fp =
     (case is_file e fp of
        Inl x \<Rightarrow> Inl x
      | Inr isf \<Rightarrow>
          Inr (if isf \<and> SC_should_process_file (path_str fp) include_patterns
               then (case stat_walk e fp of
                       None \<Rightarrow> None
                     | Some stat \<Rightarrow>
                         Some (path_str fp,
                               \<lparr>file_path = path_str fp,
                                file_type = SC_get_file_type (path_str fp),
                                language = SC_get_language (path_str fp),
                                size' = st_size stat, last_modified = st_mtime stat,
                                project_id = pid\<rparr>))
               else None))"

fun SC_files_to_process ::
  "env \<Rightarrow> string \<Rightarrow> string set \<Rightarrow> string list \<Rightarrow> exn + (string \<times> DocumentMetadata) list" where
  "SC_files_to_process e pid include_patterns [] = Inr []"
| "SC_files_to_process e pid include_patterns (fp # fps) =
     (case SC_work_item e pid include_patterns fp of
        Inl x \<Rightarrow> Inl x
      | Inr item \<Rightarrow>
          (case SC_files_to_process e pid include_patterns fps of
             Inl x \<Rightarrow> Inl x
           | Inr files \<Rightarrow> Inr (case item of None \<Rightarrow> files | Some w \<Rightarrow> w # files)))"

text \<open>\<open>range(i, n, b)\<close> for a positive step.\<close>

function py_range :: "nat \<Rightarrow> nat \<Rightarrow> nat \<Rightarrow> nat list" where
  "py_range i n b = (if b = 0 \<or> n \<le> i then [] else i # py_range (i + b) n b)"
  by pat_completeness auto
termination
  by (relation "measure (\<lambda>(i, n, b). n - i)") auto

declare py_range.simps [simp del]

text \<open>
  The loop over one batch's results: an exception object counts as a failure, \<open>True\<close> as a
  success that is also tallied by type, \<open>False\<close> as a failure.
\<close>

definition SC_record_result ::
  "(string \<times> DocumentMetadata) \<times> (exn + bool) \<Rightarrow> stats \<Rightarrow> stats" where
  "SC_record_result wr st =
     (let metadata = snd (fst wr) in
      case snd wr of
        Inl x \<Rightarrow> st\<lparr>failed := failed st + 1\<rparr>
      | Inr result \<Rightarrow>
          if result
          then (let ft = type_value (file_type metadata) in
                st\<lparr>successful := successful st + 1,
                   by_type := (by_type st)(ft \<mapsto> tally (by_type st) ft + 1)\<rparr>)
          else st\<lparr>failed := failed st + 1\<rparr>)"

text \<open>The slice \<open>files_to_process[i:i + batch_size]\<close>.\<close>

definition SC_batch :: "'a list \<Rightarrow> nat \<Rightarrow> nat \<Rightarrow> 'a list" where
  "SC_batch files b i = take b (drop i files)"

text \<open>
  The event loop while \<open>index_project\<close> waits in \<open>await asyncio.gather(*tasks, ...)\<close>.
  \<open>gather\<close> makes a task of each upload coroutine; the tasks start to run in the order of
  the arguments, and a task that runs settles at some later step. \<open>unstarted\<close> are the tasks
  that have not run yet and \<open>running\<close> the tasks that have started and not returned, each
  with the position of its work item in the worklist. At every step the scheduler selects
  one of the running tasks, which then returns the result of \<open>_upload_document\<close>, or (when
  there is one) the next unstarted task, which then starts. The loop ends when every task
  has settled; it returns the log and the results in the order of completion.
\<close>

function SC_event_loop ::
  "env \<Rightarrow> (nat \<times> string \<times> DocumentMetadata) list \<Rightarrow> (nat \<times> string \<times> DocumentMetadata) list
     \<Rightarrow> event list \<times> (nat \<times> (exn + bool)) list \<Rightarrow> event list \<times> (nat \<times> (exn + bool)) list" where
  "SC_event_loop e unstarted running acc =
     (if unstarted = [] \<and> running = [] then acc
      else if schedule e (fst acc) mod (length running + (if unstarted = [] then 0 else 1))
                < length running
      then (let k = schedule e (fst acc) mod (length running + (if unstarted = [] then 0 else 1));
                t = running ! k
            in SC_event_loop e unstarted (take k running @ drop (Suc k) running)
                 (fst acc @ [Settled (fst t)],
                  snd acc @ [(fst t, Inr (SC_upload_document e (fst (snd t))))]))
      else SC_event_loop e (tl unstarted) (running @ [hd unstarted])
             (fst acc @ [Begin (fst (hd unstarted))], snd acc))"
  by pat_completeness auto
termination
proof (relation "measure (\<lambda>(e, unstarted, running, acc). 2 * length unstarted + length running)")
  show "wf (measure (\<lambda>(e, unstarted, running, acc). 2 * length unstarted + length running))"
    by simp
next
  fix e :: env and unstarted running :: "(nat \<times> string \<times> DocumentMetadata) list"
    and acc :: "event list \<times> (nat \<times> (exn + bool)) list" and k t
  assume "schedule e (fst acc) mod (length running + (if unstarted = [] then 0 else 1))
            < length running"
    and "k = schedule e (fst acc) mod (length running + (if unstarted = [] then 0 else 1))"
  then have "k < length running" by simp
  then show "((e, unstarted, take k running @ drop (Suc k) running,
               fst acc @ [Settled (fst t)],
               snd acc @ [(fst t, Inr (SC_upload_document e (fst (snd t))))]),
              (e, unstarted, running, acc))
        \<in> measure (\<lambda>(e, unstarted, running, acc). 2 * length unstarted + length running)"
    by simp
next
  fix e :: env and unstarted running :: "(nat \<times> string \<times> DocumentMetadata) list"
    and acc :: "event list \<times> (nat \<times> (exn + bool)) list"
  assume a: "\<not> (unstarted = [] \<and> running = [])"
    and b: "\<not> schedule e (fst acc) mod (length running + (if unstarted = [] then 0 else 1))
                < length running"
  have "unstarted \<noteq> []"
  proof
    assume u: "unstarted = []"
    with a have "0 < length running" by simp
    with u b show False by simp
  qed
  then show "((e, tl unstarted, running @ [hd unstarted],
               fst acc @ [Begin (fst (hd unstarted))], snd acc),
              (e, unstarted, running, acc))
        \<in> measure (\<lambda>(e, unstarted, running, acc). 2 * length unstarted + length running)"
    by (cases unstarted) simp_all
qed

declare SC_event_loop.simps [simp del]

text \<open>
  \<open>asyncio.gather(*tasks, return_exceptions=True)\<close>, for the tasks of one batch and the log
  so far: it returns when all tasks have settled, with their results in the order of the
  arguments (here: of the positions), whatever the order of completion.
\<close>

definition SC_gather ::
  "env \<Rightarrow> (nat \<times> string \<times> DocumentMetadata) list \<Rightarrow> event list
     \<Rightarrow> (exn + bool) list \<times> event list" where
  "SC_gather e tasks log =
     (let r = SC_event_loop e tasks [] (log, [])
      in (map snd (sort_key fst (snd r)), fst r))"

text \<open>One iteration of \<open>for i in range(0, len(files_to_process), batch_size)\<close>.\<close>

definition SC_batch_step ::
  "env \<Rightarrow> (string \<times> DocumentMetadata) list \<Rightarrow> nat \<Rightarrow> nat
     \<Rightarrow> stats \<times> event list \<Rightarrow> stats \<times> event list" where
  "SC_batch_step e files b i acc =
     (let batch = SC_batch files b i;
          g = SC_gather e (zip [i..<i + length batch] batch) (snd acc)
      in (fold SC_record_result (zip batch (fst g)) (fst acc), snd g))"


text \<open>
  The batched upload of \<open>index_project\<close>. \<open>batch_size\<close> is a Python integer: \<open>range\<close>
  raises \<open>ValueError\<close> for the step 0 and is empty for a negative step.
\<close>

definition SC_upload_batches ::
  "env \<Rightarrow> (string \<times> DocumentMetadata) list \<Rightarrow> int \<Rightarrow> (exn + stats) \<times> event list" where
  "SC_upload_batches e files batch_size =
     (let st0 = \<lparr>total_files = length files, successful = 0, failed = 0, by_type = Map.empty\<rparr>
      in if batch_size = 0 then (Inl (ValueError ''range() arg 3 must not be zero''), [])
         else if batch_size < 0 then (Inr st0, [])
         else (let r = fold (SC_batch_step e files (nat batch_size))
                         (py_range 0 (length files) (nat batch_size)) (st0, [])
               in (Inr (fst r), snd r)))"

text \<open>
  \<open>index_project\<close>: the existence test on \<open>Path(project_path)\<close>, the walk, the batched
  upload; an exception of the test or of the walk leaves the function.
\<close>

definition SC_index_project ::
  "env \<Rightarrow> string \<Rightarrow> string \<Rightarrow> string set \<Rightarrow> bool \<Rightarrow> int \<Rightarrow> (exn + stats) \<times> event list" where
  "SC_index_project e pid project_path include_patterns recursive batch_size =
     (case path_exists e (path_str project_path) of
        Inl x \<Rightarrow> (Inl x, [])
      | Inr ex \<Rightarrow>
          if \<not> ex
          then (Inl (ValueError (''Project path does not exist: '' @ path_str project_path)), [])
          else (let g = glob e (path_str project_path) (if recursive then ''**/*'' else ''*'') in
                case SC_files_to_process e pid include_patterns (fst g) of
                  Inl x \<Rightarrow> (Inl x, [])
                | Inr files \<Rightarrow>
                    (case snd g of
                       Some x \<Rightarrow> (Inl x, [])
                     | None \<Rightarrow> SC_upload_batches e files batch_size)))"

text \<open>\<open>SuperClaudeRAGClient.index_project\<close> (rag\_client.py).\<close>

definition SCClient_include_patterns :: "bool \<Rightarrow> bool \<Rightarrow> bool \<Rightarrow> bool \<Rightarrow> string set" where
  "SCClient_include_patterns include_code include_docs include_configs include_tests =
     (let include_patterns =
            (if include_code then {''code''} else {}) \<union>
            (if include_docs then {''docs''} else {}) \<union>
            (if include_configs then {''configs''} else {}) \<union>
            (if include_tests then {''tests''} else {})
      in if include_patterns = {} then {''all''} else include_patterns)"

definition SCClient_index_project ::
  "env \<Rightarrow> string \<Rightarrow> string \<Rightarrow> bool \<Rightarrow> bool \<Rightarrow> bool \<Rightarrow> bool \<Rightarrow> bool
     \<Rightarrow> (exn + stats) \<times> event list" where
  "SCClient_index_project e pid project_path include_code include_docs include_configs
       include_tests recursive =
     SC_index_project e pid project_path
       (SCClient_include_patterns include_code include_docs include_configs include_tests)
       recursive 10"

section \<open>Health checks\<close>

text \<open>
  \<open>health_check\<close> of \<open>RAGClient\<close> (client.py) and of \<open>SuperClaudeDocumentProcessor\<close>:
  the argument is what the GET on the health endpoint yields (a response status, or the
  exception of a failed or timed-out connection); \<open>Inl\<close> in the result would be an exception
  raised to the caller.
\<close>

definition health_body :: "exn + int \<Rightarrow> exn + bool" where
  "health_body response = (case response of Inl x \<Rightarrow> Inl x | Inr status \<Rightarrow> Inr (status = 200))"

definition RAGClient_health_check :: "exn + int \<Rightarrow> exn + bool" where
  "RAGClient_health_check response =
     (case health_body response of Inl x \<Rightarrow> Inr False | Inr b \<Rightarrow> Inr b)"

definition SC_health_check :: "exn + int \<Rightarrow> exn + bool" where
  "SC_health_check response =
     (case health_body response of Inl x \<Rightarrow> Inr False | Inr b \<Rightarrow> Inr b)"

section \<open>A small project used for concrete evaluations\<close>

text \<open>
  A project directory \<open>/proj\<close> with a source file, a readme whose upload the service rejects
  with status 500, a makefile, a file in a hidden directory, a file of 20 MiB, a broken
  symbolic link (not a file, \<open>stat\<close> fails) and a file that disappears after the walk. The
  path \<open>/loop\<close> is a symbolic link to itself: it does not exist and \<open>resolve\<close> raises.
\<close>

definition demo_stat :: "string \<Rightarrow> file_stat" where
  "demo_stat p = \<lparr>st_size = (if p = ''/proj/big.py'' then 20971520 else 120), st_mtime = 0\<rparr>"

definition demo_entries :: "string list" where
  "demo_entries =
     [''/proj/src/main.py'', ''/proj/README.md'', ''/proj/Makefile'',
      ''/proj/.hidden/util.py'', ''/proj/big.py'', ''/proj/broken.md'', ''/proj/gone.py'']"

definition demo_env :: env where
  "demo_env =
     \<lparr>resolve = (\<lambda>p. if p = ''/loop'' then Inl (RuntimeError ''Symlink loop from /loop'')
                     else Inr p),
      path_exists = (\<lambda>p. Inr (p = ''/proj'')),
      glob = (\<lambda>root pattern. (demo_entries, None)),
      is_file = (\<lambda>p. Inr (p \<noteq> ''/proj/broken.md'')),
      stat_walk = (\<lambda>p. if p = ''/proj/broken.md'' then None else Some (demo_stat p)),
      stat_run = (\<lambda>p. if p = ''/proj/gone.py'' then None else Some (demo_stat p)),
      read_file = (\<lambda>p. Inr []),
      post = (\<lambda>p. if p = ''/proj/README.md'' then Inr 500 else Inr 200),
      schedule = (\<lambda>log. 2 * length log + 1)\<rparr>"


definition demo_test_metadata :: DocumentMetadata where
  "demo_test_metadata =
     \<lparr>file_path = ''/proj/tests/test_foo.py'', file_type = TEST, language = Some ''python'',
      size' = 120, last_modified = 0, project_id = ''p1''\<rparr>"

definition demo_readme_metadata :: DocumentMetadata where
  "demo_readme_metadata =
     \<lparr>file_path = ''/proj/README.md'', file_type = DOCUMENTATION, language = None,
      size' = 120, last_modified = 0, project_id = ''p1''\<rparr>"

definition demo_worklist :: "(string \<times> DocumentMetadata) list" where
  "demo_worklist = replicate 10 (''/proj/README.md'', demo_readme_metadata)"

definition demo_stats0 :: stats where
  "demo_stats0 = \<lparr>total_files = 1, successful = 0, failed = 0, by_type = Map.empty\<rparr>"

section \<open>Upload accounting\<close>

subsection \<open>The event loop of a batch\<close>

lemma mset_remove_nth:
  "k < length rs \<Longrightarrow> mset (map f (take k rs @ drop (Suc k) rs)) + {#f (rs ! k)#} = mset (map f rs)"
proof -
  assume k: "k < length rs"
  have "map f rs = map f (take k rs @ rs ! k # drop (Suc k) rs)"
    using id_take_nth_drop [OF k] by simp
  then have "mset (map f rs) = mset (map f (take k rs @ rs ! k # drop (Suc k) rs))" by simp
  then show ?thesis by simp
qed

lemma SC_event_loop_inv:
  "\<exists>L S. SC_event_loop e us rs acc = (fst acc @ L, snd acc @ S) \<and>
     mset L = mset (map (\<lambda>t. Begin (fst t)) us) + mset (map (\<lambda>t. Settled (fst t)) (us @ rs)) \<and>
     mset S = mset (map (\<lambda>t. (fst t, Inr (SC_upload_document e (fst (snd t))))) (us @ rs)) \<and>
     (\<forall>t \<in> set us. \<exists>xs ys. L = xs @ ys \<and> Begin (fst t) \<in> set xs \<and> Settled (fst t) \<in> set ys)"
proof (induction e us rs acc rule: SC_event_loop.induct)
  case (1 e us rs acc)
  let ?k = "schedule e (fst acc) mod (length rs + (if us = [] then 0 else 1))"
  let ?res = "\<lambda>t. (fst t, Inr (SC_upload_document e (fst (snd t)))) :: nat \<times> (exn + bool)"
  show ?case
  proof (cases "us = [] \<and> rs = []")
    case True
    then have "SC_event_loop e us rs acc = (fst acc @ [], snd acc @ [])"
      by (subst SC_event_loop.simps) simp
    with True show ?thesis by auto
  next
    case ne: False
    show ?thesis
    proof (cases "?k < length rs")
      case True
      let ?rs' = "take ?k rs @ drop (Suc ?k) rs"
      let ?t = "rs ! ?k"
      let ?acc' = "(fst acc @ [Settled (fst ?t)], snd acc @ [?res ?t])"
      from "1.IH"(1) [OF ne True refl refl] obtain L S where
        eq: "SC_event_loop e us ?rs' ?acc' = (fst ?acc' @ L, snd ?acc' @ S)"
        and mL: "mset L = mset (map (\<lambda>t. Begin (fst t)) us)
                   + mset (map (\<lambda>t. Settled (fst t)) (us @ ?rs'))"
        and mS: "mset S = mset (map ?res (us @ ?rs'))"
        and pr: "\<forall>t \<in> set us. \<exists>xs ys. L = xs @ ys \<and> Begin (fst t) \<in> set xs \<and> Settled (fst t) \<in> set ys"
        by blast
      have unf: "SC_event_loop e us rs acc = SC_event_loop e us ?rs' ?acc'"
        by (subst SC_event_loop.simps, subst if_not_P [OF ne], simp add: True Let_def)
      have a: "SC_event_loop e us rs acc
          = (fst acc @ (Settled (fst ?t) # L), snd acc @ (?res ?t # S))"
        using unf eq by simp
      have b: "mset (Settled (fst ?t) # L) = mset (map (\<lambda>t. Begin (fst t)) us)
                   + mset (map (\<lambda>t. Settled (fst t)) (us @ rs))"
        using mL mset_remove_nth [OF True, of "\<lambda>t. Settled (fst t)"] by simp
      have c: "mset (?res ?t # S) = mset (map ?res (us @ rs))"
        using mS mset_remove_nth [OF True, of ?res] by simp
      have d: "\<forall>t \<in> set us. \<exists>xs ys. Settled (fst ?t) # L = xs @ ys \<and>
                 Begin (fst t) \<in> set xs \<and> Settled (fst t) \<in> set ys"
      proof
        fix t assume "t \<in> set us"
        with pr obtain xs ys where "L = xs @ ys" "Begin (fst t) \<in> set xs" "Settled (fst t) \<in> set ys"
          by blast
        then have "Settled (fst ?t) # L = (Settled (fst ?t) # xs) @ ys"
          "Begin (fst t) \<in> set (Settled (fst ?t) # xs)" by simp_all
        with \<open>Settled (fst t) \<in> set ys\<close>
        show "\<exists>xs ys. Settled (fst ?t) # L = xs @ ys \<and>
                 Begin (fst t) \<in> set xs \<and> Settled (fst t) \<in> set ys" by blast
      qed
      from a b c d show ?thesis by blast
    next
      case False
      have us: "us \<noteq> []"
      proof
        assume u: "us = []"
        with ne have "0 < length rs" by simp
        with u False show False by simp
      qed
      then obtain u us' where u: "us = u # us'" by (cases us) auto
      let ?acc' = "(fst acc @ [Begin (fst (hd us))], snd acc)"
      from "1.IH"(2) [OF ne False] obtain L S where
        eq: "SC_event_loop e (tl us) (rs @ [hd us]) ?acc' = (fst ?acc' @ L, snd ?acc' @ S)"
        and mL: "mset L = mset (map (\<lambda>t. Begin (fst t)) (tl us))
                   + mset (map (\<lambda>t. Settled (fst t)) (tl us @ rs @ [hd us]))"
        and mS: "mset S = mset (map ?res (tl us @ rs @ [hd us]))"
        and pr: "\<forall>t \<in> set (tl us). \<exists>xs ys. L = xs @ ys \<and> Begin (fst t) \<in> set xs \<and> Settled (fst t) \<in> set ys"
        by blast
      have unf: "SC_event_loop e us rs acc
          = SC_event_loop e (tl us) (rs @ [hd us]) ?acc'"
        by (subst SC_event_loop.simps, subst if_not_P [OF ne], simp add: False Let_def)
      have a: "SC_event_loop e us rs acc = (fst acc @ (Begin (fst u) # L), snd acc @ S)"
        using unf eq u by simp
      have b: "mset (Begin (fst u) # L) = mset (map (\<lambda>t. Begin (fst t)) us)
                   + mset (map (\<lambda>t. Settled (fst t)) (us @ rs))"
        using mL u by simp
      have c: "mset S = mset (map ?res (us @ rs))"
        using mS u by simp
      from mL u have "Settled (fst u) \<in># mset L" by simp
      then have su: "Settled (fst u) \<in> set L" by simp
      have d: "\<forall>t \<in> set us. \<exists>xs ys. Begin (fst u) # L = xs @ ys \<and>
                 Begin (fst t) \<in> set xs \<and> Settled (fst t) \<in> set ys"
      proof
        fix t assume "t \<in> set us"
        with u consider "t = u" | "t \<in> set (tl us)" by auto
        then show "\<exists>xs ys. Begin (fst u) # L = xs @ ys \<and>
                 Begin (fst t) \<in> set xs \<and> Settled (fst t) \<in> set ys"
        proof cases
          case 1
          have "Begin (fst u) # L = [Begin (fst u)] @ L" by simp
          with 1 su show ?thesis by (metis list.set_intros(1))
        next
          case 2
          with pr obtain xs ys where "L = xs @ ys" "Begin (fst t) \<in> set xs" "Settled (fst t) \<in> set ys"
            by blast
          then have "Begin (fst u) # L = (Begin (fst u) # xs) @ ys"
            "Begin (fst t) \<in> set (Begin (fst u) # xs)" by simp_all
          with \<open>Settled (fst t) \<in> set ys\<close> show ?thesis by blast
        qed
      qed
      from a b c d show ?thesis by blast
    qed
  qed
qed

lemma SC_gather_inv:
  assumes "tasks = zip [i..<i + length batch] batch"
  shows "\<exists>L. SC_gather e tasks lg =
           (map (\<lambda>w. Inr (SC_upload_document e (fst w))) batch, lg @ L) \<and>
         mset L = mset (map Begin [i..<i + length batch]) + mset (map Settled [i..<i + length batch]) \<and>
         (\<forall>x. i \<le> x \<and> x < i + length batch \<longrightarrow>
            (\<exists>xs ys. L = xs @ ys \<and> Begin x \<in> set xs \<and> Settled x \<in> set ys))"
proof -
  let ?res = "\<lambda>t. (fst t, Inr (SC_upload_document e (fst (snd t)))) :: nat \<times> (exn + bool)"
  have ids: "map fst tasks = [i..<i + length batch]" and pay: "map snd tasks = batch"
    using assms by simp_all
  from SC_event_loop_inv [of e tasks "[]" "(lg, [])"] obtain L S where
    eq: "SC_event_loop e tasks [] (lg, []) = (lg @ L, S)"
    and mL: "mset L = mset (map (\<lambda>t. Begin (fst t)) tasks) + mset (map (\<lambda>t. Settled (fst t)) tasks)"
    and mS: "mset S = mset (map ?res tasks)"
    and pr: "\<forall>t \<in> set tasks. \<exists>xs ys. L = xs @ ys \<and> Begin (fst t) \<in> set xs \<and> Settled (fst t) \<in> set ys"
    by auto
  have "map (\<lambda>t. Begin (fst t)) tasks = map Begin (map fst tasks)"
    "map (\<lambda>t. Settled (fst t)) tasks = map Settled (map fst tasks)" by simp_all
  with mL ids have mL': "mset L = mset (map Begin [i..<i + length batch])
      + mset (map Settled [i..<i + length batch])" by simp
  have keys: "map fst (map ?res tasks) = [i..<i + length batch]"
    using ids by (simp add: o_def)
  then have "distinct (map fst (map ?res tasks))" by simp
  then have "inj_on fst (set (map ?res tasks))" by (simp only: distinct_map)
  moreover from mS have "set S = set (map ?res tasks)" by (rule mset_eq_setD)
  ultimately have inj: "inj_on fst (set S)" by simp
  from keys have srt: "sorted (map fst (map ?res tasks))" by simp
  from sort_key_inj_key_eq [OF mS inj srt] have "sort_key fst S = map ?res tasks" .
  then have "map snd (sort_key fst S) = map (\<lambda>t. Inr (SC_upload_document e (fst (snd t)))) tasks"
    by (simp add: o_def)
  also have "\<dots> = map (\<lambda>w. Inr (SC_upload_document e (fst w))) (map snd tasks)"
    by (simp add: o_def)
  finally have res: "map snd (sort_key fst S) = map (\<lambda>w. Inr (SC_upload_document e (fst w))) batch"
    using pay by simp
  have g: "SC_gather e tasks lg = (map (\<lambda>w. Inr (SC_upload_document e (fst w))) batch, lg @ L)"
    using eq res by (simp add: SC_gather_def Let_def)
  have p: "\<forall>x. i \<le> x \<and> x < i + length batch \<longrightarrow>
            (\<exists>xs ys. L = xs @ ys \<and> Begin x \<in> set xs \<and> Settled x \<in> set ys)"
  proof (intro allI impI)
    fix x assume "i \<le> x \<and> x < i + length batch"
    then have "x \<in> set (map fst tasks)" using ids by simp
    then obtain t where "t \<in> set tasks" "fst t = x" by auto
    with pr show "\<exists>xs ys. L = xs @ ys \<and> Begin x \<in> set xs \<and> Settled x \<in> set ys" by blast
  qed
  from g mL' p show ?thesis by blast
qed

subsection \<open>The batched upload of \<open>SuperClaudeDocumentProcessor\<close>\<close>

lemma DP_track_tally: "tally (DP_track m k) t = tally m t + (if t = k then 1 else 0)"
  by (simp add: DP_track_def Let_def tally_def split: option.splits)

lemma SC_record_result_sum:
  "successful (SC_record_result wr st) + failed (SC_record_result wr st)
     = successful st + failed st + 1"
  by (simp add: SC_record_result_def Let_def split: sum.splits)

lemma SC_record_result_total: "total_files (SC_record_result wr st) = total_files st"
  by (simp add: SC_record_result_def Let_def split: sum.splits)

lemma SC_record_result_tally:
  "tally (by_type (SC_record_result wr st)) t =
     tally (by_type st) t +
       (if snd wr = Inr True \<and> type_value (file_type (snd (fst wr))) = t then 1 else 0)"
  by (simp add: SC_record_result_def Let_def tally_def split: sum.splits)

lemma SC_fold_sum:
  "successful (fold SC_record_result wrs st) + failed (fold SC_record_result wrs st)
     = successful st + failed st + length wrs"
  by (induction wrs arbitrary: st) (simp_all add: SC_record_result_sum)

lemma SC_fold_total: "total_files (fold SC_record_result wrs st) = total_files st"
  by (induction wrs arbitrary: st) (simp_all add: SC_record_result_total)

lemma SC_fold_tally:
  "tally (by_type (fold SC_record_result wrs st)) t =
     tally (by_type st) t +
       length (filter (\<lambda>wr. snd wr = Inr True \<and> type_value (file_type (snd (fst wr))) = t) wrs)"
  by (induction wrs arbitrary: st) (simp_all add: SC_record_result_tally)

lemma zip_map_same: "zip xs (map f xs) = map (\<lambda>x. (x, f x)) xs"
  by (induction xs) simp_all

lemma SC_batch_step_eq:
  "\<exists>L. SC_batch_step e files b i acc =
         (fold SC_record_result
            (map (\<lambda>w. (w, Inr (SC_upload_document e (fst w)))) (SC_batch files b i)) (fst acc),
          snd acc @ L) \<and>
       mset L = mset (map Begin [i..<i + length (SC_batch files b i)])
                + mset (map Settled [i..<i + length (SC_batch files b i)]) \<and>
       (\<forall>x. i \<le> x \<and> x < i + length (SC_batch files b i) \<longrightarrow>
          (\<exists>xs ys. L = xs @ ys \<and> Begin x \<in> set xs \<and> Settled x \<in> set ys))"
proof -
  let ?batch = "SC_batch files b i"
  from SC_gather_inv [OF refl, of e i ?batch "snd acc"] obtain L where
    g: "SC_gather e (zip [i..<i + length ?batch] ?batch) (snd acc)
          = (map (\<lambda>w. Inr (SC_upload_document e (fst w))) ?batch, snd acc @ L)"
    and m: "mset L = mset (map Begin [i..<i + length ?batch])
                + mset (map Settled [i..<i + length ?batch])"
    and p: "\<forall>x. i \<le> x \<and> x < i + length ?batch \<longrightarrow>
          (\<exists>xs ys. L = xs @ ys \<and> Begin x \<in> set xs \<and> Settled x \<in> set ys)"
    by blast
  have "SC_batch_step e files b i acc =
         (fold SC_record_result
            (map (\<lambda>w. (w, Inr (SC_upload_document e (fst w)))) ?batch) (fst acc),
          snd acc @ L)"
    by (simp add: SC_batch_step_def Let_def g zip_map_same)
  with m p show ?thesis by blast
qed

lemma SC_batch_step_fst:
  "successful (fst (SC_batch_step e files b i acc)) + failed (fst (SC_batch_step e files b i acc))
     = successful (fst acc) + failed (fst acc) + length (SC_batch files b i)"
  "total_files (fst (SC_batch_step e files b i acc)) = total_files (fst acc)"
  "tally (by_type (fst (SC_batch_step e files b i acc))) t =
     tally (by_type (fst acc)) t + length (filter (\<lambda>w. SC_upload_document e (fst w) \<and> type_value (file_type (snd w)) = t) (SC_batch files b i))"
proof -
  from SC_batch_step_eq [of e files b i acc] obtain L where
    eq: "SC_batch_step e files b i acc =
         (fold SC_record_result
            (map (\<lambda>w. (w, Inr (SC_upload_document e (fst w)))) (SC_batch files b i)) (fst acc),
          snd acc @ L)" by blast
  show "successful (fst (SC_batch_step e files b i acc)) + failed (fst (SC_batch_step e files b i acc))
     = successful (fst acc) + failed (fst acc) + length (SC_batch files b i)"
    by (simp add: eq SC_fold_sum)
  show "total_files (fst (SC_batch_step e files b i acc)) = total_files (fst acc)"
    by (simp add: eq SC_fold_total)
  show "tally (by_type (fst (SC_batch_step e files b i acc))) t =
     tally (by_type (fst acc)) t + length (filter (\<lambda>w. SC_upload_document e (fst w) \<and> type_value (file_type (snd w)) = t) (SC_batch files b i))"
    by (simp add: eq SC_fold_tally filter_map o_def)
qed

lemma SC_batch_length: "length (SC_batch files b i) = min b (length files - i)"
  by (simp add: SC_batch_def)

lemma py_range_Nil: "b = 0 \<or> n \<le> i \<Longrightarrow> py_range i n b = []"
  by (subst py_range.simps) simp

lemma py_range_Cons: "0 < b \<Longrightarrow> i < n \<Longrightarrow> py_range i n b = i # py_range (i + b) n b"
  by (subst py_range.simps) simp



lemma SC_loop_sum:
  "0 < b \<Longrightarrow> n = length files \<Longrightarrow>
   successful (fst (fold (SC_batch_step e files b) (py_range i n b) acc)) +
   failed (fst (fold (SC_batch_step e files b) (py_range i n b) acc))
     = successful (fst acc) + failed (fst acc) + (n - i)"
proof (induction i n b arbitrary: acc rule: py_range.induct)
  case (1 i n b)
  show ?case
  proof (cases "n \<le> i")
    case True
    then show ?thesis by (simp add: py_range_Nil)
  next
    case False
    with "1.prems" have ih: "\<And>acc'. successful (fst (fold (SC_batch_step e files b) (py_range (i + b) n b) acc')) +
        failed (fst (fold (SC_batch_step e files b) (py_range (i + b) n b) acc'))
        = successful (fst acc') + failed (fst acc') + (n - (i + b))"
      using "1.IH" by simp
    from False "1.prems"(1) show ?thesis
      by (simp add: py_range_Cons ih SC_batch_step_fst SC_batch_length "1.prems"(2)[symmetric])
  qed
qed

lemma SC_loop_total:
  "total_files (fst (fold (SC_batch_step e files b) (py_range i n b) acc)) = total_files (fst acc)"
proof (induction i n b arbitrary: acc rule: py_range.induct)
  case (1 i n b)
  show ?case
  proof (cases "b = 0 \<or> n \<le> i")
    case True
    then show ?thesis by (simp add: py_range_Nil)
  next
    case False
    then show ?thesis
      using "1.IH" by (simp add: py_range_Cons SC_batch_step_fst)
  qed
qed

lemma SC_loop_tally:
  "0 < b \<Longrightarrow> n = length files \<Longrightarrow>
   tally (by_type (fst (fold (SC_batch_step e files b) (py_range i n b) acc))) t
     = tally (by_type (fst acc)) t +
       length (filter (\<lambda>w. SC_upload_document e (fst w) \<and> type_value (file_type (snd w)) = t)
                 (drop i files))"
  (is "_ \<Longrightarrow> _ \<Longrightarrow> _ = _ + length (filter ?P _)")
proof (induction i n b arbitrary: acc rule: py_range.induct)
  case (1 i n b)
  show ?case
  proof (cases "n \<le> i")
    case True
    with "1.prems" show ?thesis by (simp add: py_range_Nil)
  next
    case False
    have "take b (drop i files) @ drop b (drop i files) = drop i files"
      by (rule append_take_drop_id)
    then have "SC_batch files b i @ drop (i + b) files = drop i files"
      by (simp add: SC_batch_def add.commute)
    then have "filter ?P (drop i files)
        = filter ?P (SC_batch files b i) @ filter ?P (drop (i + b) files)"
      by (metis filter_append)
    then have split: "length (filter ?P (drop i files))
        = length (filter ?P (SC_batch files b i)) + length (filter ?P (drop (i + b) files))"
      by simp
    from False "1.prems" have ih: "\<And>acc'. tally (by_type (fst (fold (SC_batch_step e files b) (py_range (i + b) n b) acc'))) t
        = tally (by_type (fst acc')) t + length (filter ?P (drop (i + b) files))"
      using "1.IH" by simp
    from False "1.prems"(1) show ?thesis
      by (simp add: py_range_Cons ih SC_batch_step_fst split "1.prems"(2)[symmetric])
  qed
qed

subsection \<open>The upload loop of \<open>DocumentProcessor\<close>\<close>



lemma DP_process_file_tally:
  "tally (by_type (fst (DP_process_file e pid ip acc))) t =
     tally (by_type (fst acc)) t +
       (if stat_run e (snd ip) \<noteq> None \<and> type_value (DP_classify_document (snd ip)) = t
        then 1 else 0)"
  by (auto simp: DP_process_file_def DP_metadata_def Let_def DP_track_tally split: option.splits)




lemma DP_fold_tally:
  "tally (by_type (fst (fold (DP_process_file e pid) ips acc))) t =
     tally (by_type (fst acc)) t +
       length (filter (\<lambda>ip. stat_run e (snd ip) \<noteq> None \<and>
                            type_value (DP_classify_document (snd ip)) = t) ips)"
  by (induction ips arbitrary: acc) (simp_all add: DP_process_file_tally)


lemma length_filter_snd:
  "length (filter (\<lambda>ip. P (snd ip)) ips) = length (filter P (map snd ips))"
  by (induction ips) simp_all

lemma filter_snd_zip_upt:
  "length (filter (\<lambda>ip. P (snd ip)) (zip [0..<length fs] fs)) = length (filter P fs)"
  by (simp only: length_filter_snd) (simp add: map_snd_zip)

lemma tally_empty: "tally Map.empty t = 0"
  by (simp add: tally_def)



lemma DP_upload_loop_tally:
  "tally (by_type (fst (DP_upload_loop e pid fs))) t =
     length (filter (\<lambda>p. stat_run e p \<noteq> None \<and> type_value (DP_classify_document p) = t) fs)"
  (is "_ = length (filter ?P fs)")
proof -
  have "tally (by_type (fst (DP_upload_loop e pid fs))) t =
      length (filter (\<lambda>ip. ?P (snd ip)) (zip [0..<length fs] fs))"
    unfolding DP_upload_loop_def DP_fold_tally by (simp add: tally_empty)
  also have "\<dots> = length (filter ?P fs)" by (rule filter_snd_zip_upt)
  finally show ?thesis .
qed

lemma SC_upload_batches_result:
  assumes "1 \<le> batch_size"
  shows "\<exists>st. fst (SC_upload_batches e files batch_size) = Inr st \<and>
           successful st + failed st = total_files st \<and> total_files st = length files \<and>
           (\<forall>t. tally (by_type st) t =
              length (filter (\<lambda>w. SC_upload_document e (fst w) \<and>
                                   type_value (file_type (snd w)) = t) files))"
proof -
  from assms have b: "0 < nat batch_size" by simp
  let ?st0 = "\<lparr>total_files = length files, successful = 0, failed = 0, by_type = Map.empty\<rparr>"
  let ?r = "fold (SC_batch_step e files (nat batch_size))
              (py_range 0 (length files) (nat batch_size)) (?st0, [])"
  from assms have "fst (SC_upload_batches e files batch_size) = Inr (fst ?r)"
    by (simp add: SC_upload_batches_def Let_def)
  moreover have "successful (fst ?r) + failed (fst ?r) = total_files (fst ?r)"
    using SC_loop_sum [OF b refl, of e files 0 "(?st0, [])"]
    by (simp add: SC_loop_total)
  moreover have "total_files (fst ?r) = length files" by (simp add: SC_loop_total)
  moreover have "\<forall>t. tally (by_type (fst ?r)) t =
              length (filter (\<lambda>w. SC_upload_document e (fst w) \<and>
                                   type_value (file_type (snd w)) = t) files)"
    using SC_loop_tally [OF b refl, of e files 0 "(?st0, [])"] by (simp add: tally_empty)
  ultimately show ?thesis by blast
qed

subsection \<open>The slices of the batch loop\<close>







subsection \<open>The walks\<close>

lemma DP_files_to_process_Inr:
  "DP_files_to_process e entries ic idoc ico it = Inr fs \<Longrightarrow>
   fs = filter (\<lambda>p. is_file e p = Inr True \<and> DP_should_include_file e p ic idoc ico it) entries"
  by (induction entries arbitrary: fs) (auto split: sum.splits)

lemma DP_files_to_process_Inl:
  "DP_files_to_process e entries ic idoc ico it = Inl x \<Longrightarrow> \<exists>p \<in> set entries. is_file e p = Inl x"
  by (induction entries) (auto split: sum.splits)


lemma SC_work_item_Inl: "SC_work_item e pid pats fp = Inl x \<longleftrightarrow> is_file e fp = Inl x"
  by (simp add: SC_work_item_def split: sum.splits)

lemma SC_files_to_process_Inr:
  "SC_files_to_process e pid pats entries = Inr ws \<Longrightarrow>
   \<forall>w \<in> set ws. \<exists>fp \<in> set entries. SC_work_item e pid pats fp = Inr (Some w)"
  by (induction entries arbitrary: ws) (auto split: sum.splits option.splits)

lemma SC_files_to_process_Inl:
  "SC_files_to_process e pid pats entries = Inl x \<Longrightarrow> \<exists>p \<in> set entries. is_file e p = Inl x"
  by (induction entries) (auto simp: SC_work_item_Inl split: sum.splits)

lemma SC_files_to_process_total:
  "\<forall>p \<in> set entries. \<exists>isf. is_file e p = Inr isf \<Longrightarrow>
   \<exists>ws. SC_files_to_process e pid pats entries = Inr ws"
proof (induction entries)
  case Nil
  show ?case by simp
next
  case (Cons fp fps)
  then obtain isf ws where "is_file e fp = Inr isf" "SC_files_to_process e pid pats fps = Inr ws"
    by auto
  then show ?case by (simp add: SC_work_item_def)
qed

section \<open>The inclusion filters\<close>

lemma DP_excluded_token:
  assumes "tok \<in> set DP_exclusions" and "sublist tok (path_str p)"
  shows "\<not> DP_should_include_file e p ic idoc ico it"
proof -
  from assms have "\<exists>excl \<in> set DP_exclusions. sublist excl (path_str p)" by blast
  then show ?thesis by (simp add: DP_should_include_file_def)
qed

lemma SC_skipped_token:
  assumes "tok \<in> set SC_skip_dirs" and "sublist tok (path_str fp)"
  shows "\<not> SC_should_process_file fp pats"
proof -
  from assms have "\<exists>skip_dir \<in> set SC_skip_dirs. sublist skip_dir (path_str fp)" by blast
  then show ?thesis by (simp add: SC_should_process_file_def)
qed

text \<open>
  Claim C10. The deny-list is applied by substring containment over the whole path string:
  whatever the inclusion flags or patterns, a path whose string contains a deny-list token
  anywhere is rejected by both filters (each with its own list).
\<close>

theorem deny_list_is_substring_containment:
  "(tok \<in> set DP_exclusions \<longrightarrow> sublist tok (path_str p) \<longrightarrow>
      \<not> DP_should_include_file e p ic idoc ico it) \<and>
   (tok \<in> set SC_skip_dirs \<longrightarrow> sublist tok (path_str fp) \<longrightarrow>
      \<not> SC_should_process_file fp pats)"
  using DP_excluded_token SC_skipped_token by blast

text \<open>
  The claim's examples: \<open>env\<close> inside \<open>environment.py\<close>, \<open>bin\<close> inside \<open>binary.txt\<close>,
  with every flag set and with the \<open>all\<close> pattern.
\<close>

theorem deny_list_is_substring_containment_witness:
  "''env'' \<in> set DP_exclusions \<and> sublist ''env'' (path_str ''/proj/environment.py'') \<and>
   \<not> DP_should_include_file demo_env ''/proj/environment.py'' True True True True \<and>
   ''bin'' \<in> set SC_skip_dirs \<and> sublist ''bin'' (path_str ''src/binary.txt'') \<and>
   \<not> SC_should_process_file ''src/binary.txt'' {''all''}"
proof -
  have a: "''env'' \<in> set DP_exclusions" by (simp add: DP_exclusions_def)
  have b: "sublist ''env'' (path_str ''/proj/environment.py'')" by code_simp
  have c: "''bin'' \<in> set SC_skip_dirs" by (simp add: SC_skip_dirs_def)
  have d: "sublist ''bin'' (path_str ''src/binary.txt'')" by code_simp
  from deny_list_is_substring_containment
         [of "''env''" "''/proj/environment.py''" demo_env True True True True] a b
  have e: "\<not> DP_should_include_file demo_env ''/proj/environment.py'' True True True True"
    by blast
  from deny_list_is_substring_containment
         [of "''bin''" _ _ _ _ _ _ "''src/binary.txt''" "{''all''}"] c d
  have f: "\<not> SC_should_process_file ''src/binary.txt'' {''all''}" by blast
  from a b c d e f show ?thesis by blast
qed

text \<open>
  Claim C3, as the code has it. With none of \<open>code\<close>, \<open>docs\<close>, \<open>configs\<close>, \<open>tests\<close>, \<open>all\<close>
  among the patterns, \<open>_should_process_file\<close> rejects every path and the walk of
  \<open>index_project\<close> selects no file (it collects the empty worklist unless \<open>is_file\<close>
  raises). \<open>_should_include_file\<close> with its four flags false rejects every file classified
  as code, documentation, configuration or test; a file of the category \<open>OTHER\<close> is decided
  without looking at the flags, so the run selects files of that category only.
  \<open>SuperClaudeRAGClient.index_project\<close> turns four false flags into the \<open>all\<close> pattern.
\<close>

theorem no_flags_excludes_all_but_other:
  "(pats \<inter> {''code'', ''docs'', ''configs'', ''tests'', ''all''} = {} \<longrightarrow>
      \<not> SC_should_process_file fp pats \<and>
      (\<forall>ws. SC_files_to_process e pid pats entries = Inr ws \<longrightarrow> ws = []) \<and>
      ((\<forall>q \<in> set entries. \<exists>isf. is_file e q = Inr isf) \<longrightarrow>
         SC_files_to_process e pid pats entries = Inr [])) \<and>
   (DP_should_include_file e p False False False False \<longrightarrow> DP_classify_document p = OTHER) \<and>
   (\<forall>fs. DP_files_to_process e entries False False False False = Inr fs \<longrightarrow>
      (\<forall>f \<in> set fs. DP_classify_document f = OTHER)) \<and>
   (DP_classify_document p = OTHER \<longrightarrow>
      DP_should_include_file e p ic idoc ico it = DP_should_include_file e p True True True True) \<and>
   SCClient_include_patterns False False False False = {''all''}"
proof -
  have sc: "\<not> SC_should_process_file q pats"
    if "pats \<inter> {''code'', ''docs'', ''configs'', ''tests'', ''all''} = {}" for q
  proof -
    from that have "''code'' \<notin> pats" "''docs'' \<notin> pats" "''configs'' \<notin> pats"
      "''tests'' \<notin> pats" "''all'' \<notin> pats" by blast+
    then show ?thesis by (simp add: SC_should_process_file_def)
  qed
  have dp: "DP_classify_document q = OTHER"
    if a: "DP_should_include_file e q False False False False" for q
  proof (cases "DP_classify_document q")
    case OTHER then show ?thesis .
  qed (use a in \<open>simp_all add: DP_should_include_file_def split: option.splits if_splits\<close>)
  have scw: "ws = []"
    if h: "pats \<inter> {''code'', ''docs'', ''configs'', ''tests'', ''all''} = {}"
      and w: "SC_files_to_process e pid pats entries = Inr ws" for ws
  proof (rule ccontr)
    assume "ws \<noteq> []"
    then obtain w' where "w' \<in> set ws" by (cases ws) auto
    with SC_files_to_process_Inr [OF w] obtain q where
      "SC_work_item e pid pats q = Inr (Some w')" by blast
    then have "SC_should_process_file (path_str q) pats"
      by (auto simp: SC_work_item_def split: sum.splits if_splits)
    with sc [OF h] show False by simp
  qed
  have sct: "SC_files_to_process e pid pats entries = Inr []"
    if h: "pats \<inter> {''code'', ''docs'', ''configs'', ''tests'', ''all''} = {}"
      and t: "\<forall>q \<in> set entries. \<exists>isf. is_file e q = Inr isf"
  proof -
    from SC_files_to_process_total [OF t] obtain ws where
      w: "SC_files_to_process e pid pats entries = Inr ws" by blast
    with scw [OF h w] show ?thesis by simp
  qed
  have dpf: "\<forall>f \<in> set fs. DP_classify_document f = OTHER"
    if "DP_files_to_process e entries False False False False = Inr fs" for fs
    using DP_files_to_process_Inr [OF that] dp by simp
  have oth: "DP_should_include_file e p ic idoc ico it = DP_should_include_file e p True True True True"
    if "DP_classify_document p = OTHER"
    using that by (simp add: DP_should_include_file_def split: option.splits)
  have cl: "SCClient_include_patterns False False False False = {''all''}"
    by (simp add: SCClient_include_patterns_def)
  show ?thesis
  proof (intro conjI impI allI)
    assume h: "pats \<inter> {''code'', ''docs'', ''configs'', ''tests'', ''all''} = {}"
    from h show "\<not> SC_should_process_file fp pats" by (rule sc)
    fix ws assume "SC_files_to_process e pid pats entries = Inr ws"
    with h show "ws = []" by (rule scw)
  next
    assume "pats \<inter> {''code'', ''docs'', ''configs'', ''tests'', ''all''} = {}"
      and "\<forall>q \<in> set entries. \<exists>isf. is_file e q = Inr isf"
    then show "SC_files_to_process e pid pats entries = Inr []" by (rule sct)
  next
    assume "DP_should_include_file e p False False False False"
    then show "DP_classify_document p = OTHER" by (rule dp)
  next
    fix fs assume "DP_files_to_process e entries False False False False = Inr fs"
    then show "\<forall>f \<in> set fs. DP_classify_document f = OTHER" by (rule dpf)
  next
    assume "DP_classify_document p = OTHER"
    then show "DP_should_include_file e p ic idoc ico it
        = DP_should_include_file e p True True True True" by (rule oth)
  next
    show "SCClient_include_patterns False False False False = {''all''}" by (rule cl)
  qed
qed

theorem no_flags_excludes_all_but_other_witness:
  "{} \<inter> {''code'', ''docs'', ''configs'', ''tests'', ''all''} = ({} :: string set) \<and>
   \<not> SC_should_process_file ''/proj/src/main.py'' {} \<and>
   list_all (\<lambda>q. \<exists>isf. is_file demo_env q = Inr isf) demo_entries \<and>
   SC_files_to_process demo_env ''p1'' {} demo_entries = Inr [] \<and>
   DP_should_include_file demo_env ''/proj/Makefile'' False False False False \<and>
   DP_classify_document ''/proj/Makefile'' = OTHER \<and>
   DP_files_to_process demo_env demo_entries False False False False = Inr [''/proj/Makefile''] \<and>
   list_all (\<lambda>f. DP_classify_document f = OTHER) [''/proj/Makefile''] \<and>
   DP_should_include_file demo_env ''/proj/Makefile'' True True True True"
proof -
  have a: "DP_should_include_file demo_env ''/proj/Makefile'' False False False False"
    by code_simp
  have b: "DP_files_to_process demo_env demo_entries False False False False
      = Inr [''/proj/Makefile'']"
    by code_simp
  have c: "\<forall>q \<in> set demo_entries. \<exists>isf. is_file demo_env q = Inr isf"
    by (simp add: demo_env_def)
  note t = no_flags_excludes_all_but_other
         [of "{}" "''/proj/src/main.py''" demo_env "''p1''" demo_entries "''/proj/Makefile''"
             False False False False]
  from t have d: "\<not> SC_should_process_file ''/proj/src/main.py'' {}" by simp
  from t c have e: "SC_files_to_process demo_env ''p1'' {} demo_entries = Inr []" by simp
  from t a have f: "DP_classify_document ''/proj/Makefile'' = OTHER" by simp
  from t b have g: "\<forall>f \<in> set [''/proj/Makefile'']. DP_classify_document f = OTHER" by blast
  from t a f have h: "DP_should_include_file demo_env ''/proj/Makefile'' True True True True"
    by simp
  from c have c': "list_all (\<lambda>q. \<exists>isf. is_file demo_env q = Inr isf) demo_entries"
    by (simp only: list_all_iff)
  from g have g': "list_all (\<lambda>f. DP_classify_document f = OTHER) [''/proj/Makefile'']"
    by (simp only: list_all_iff)
  have z: "{} \<inter> {''code'', ''docs'', ''configs'', ''tests'', ''all''} = ({} :: string set)"
    by simp
  show ?thesis by (intro conjI z d c' e a f b g' h)
qed

text \<open>
  Claim C3 as stated fails for \<open>_should_include_file\<close>: with the four flags false the
  makefile of the project is included, so the run selects a file.
\<close>

theorem DP_includes_other_with_no_flags:
  "DP_should_include_file demo_env ''/proj/Makefile'' False False False False \<and>
   DP_files_to_process demo_env demo_entries False False False False = Inr [''/proj/Makefile'']"
  by code_simp

text \<open>
  Claim C5, as the code has it. \<open>_should_process_file\<close> rejects, whatever the patterns,
  every path with a part starting with a dot whose name is not one of \<open>.gitignore\<close>,
  \<open>.env.example\<close>, \<open>.dockerignore\<close>; for a path with one of these names the rule for
  hidden paths is passed over and the remaining rules (the deny-list, the patterns) decide.
  \<open>_should_include_file\<close> has no rule for hidden paths: whether or not a part starts with
  a dot, a path is included when it contains no deny-list token, its \<open>stat\<close> succeeds with
  a size within the limit and the flag of its category is set.
\<close>

theorem hidden_paths_excluded_by_SC:
  "((\<exists>part \<in> set (path_parts fp). prefix ''.'' part) \<longrightarrow>
      path_name fp \<notin> set SC_allowed_dotfiles \<longrightarrow> \<not> SC_should_process_file fp pats) \<and>
   (path_name fp \<in> set SC_allowed_dotfiles \<longrightarrow>
      SC_should_process_file fp pats =
        (\<not> (\<exists>skip_dir \<in> set SC_skip_dirs. sublist skip_dir (path_str fp)) \<and>
         (''all'' \<in> pats \<or>
          ''code'' \<in> pats \<and> SC_get_file_type (path_str fp) = CODE \<or>
          ''docs'' \<in> pats \<and> SC_get_file_type (path_str fp) = DOCUMENTATION \<or>
          ''configs'' \<in> pats \<and> SC_get_file_type (path_str fp) = CONFIGURATION \<or>
          ''tests'' \<in> pats \<and> SC_get_file_type (path_str fp) = TEST))) \<and>
   (\<not> (\<exists>excl \<in> set DP_exclusions. sublist excl (path_str p)) \<longrightarrow>
      stat_walk e p = Some s \<longrightarrow> st_size s \<le> 10 * 1024 * 1024 \<longrightarrow>
      (DP_classify_document p = CODE \<longrightarrow> ic) \<longrightarrow>
      (DP_classify_document p = DOCUMENTATION \<longrightarrow> idoc) \<longrightarrow>
      (DP_classify_document p = CONFIGURATION \<longrightarrow> ico) \<longrightarrow>
      (DP_classify_document p = TEST \<longrightarrow> it) \<longrightarrow>
      DP_should_include_file e p ic idoc ico it)"
proof (intro conjI impI)
  assume "\<exists>part \<in> set (path_parts fp). prefix ''.'' part"
    and "path_name fp \<notin> set SC_allowed_dotfiles"
  then show "\<not> SC_should_process_file fp pats"
    by (simp add: SC_should_process_file_def)
next
  assume "path_name fp \<in> set SC_allowed_dotfiles"
  then show "SC_should_process_file fp pats =
        (\<not> (\<exists>skip_dir \<in> set SC_skip_dirs. sublist skip_dir (path_str fp)) \<and>
         (''all'' \<in> pats \<or>
          ''code'' \<in> pats \<and> SC_get_file_type (path_str fp) = CODE \<or>
          ''docs'' \<in> pats \<and> SC_get_file_type (path_str fp) = DOCUMENTATION \<or>
          ''configs'' \<in> pats \<and> SC_get_file_type (path_str fp) = CONFIGURATION \<or>
          ''tests'' \<in> pats \<and> SC_get_file_type (path_str fp) = TEST))"
    by (simp add: SC_should_process_file_def Let_def)
next
  assume "\<not> (\<exists>excl \<in> set DP_exclusions. sublist excl (path_str p))"
    and "stat_walk e p = Some s" and "st_size s \<le> 10 * 1024 * 1024"
    and "DP_classify_document p = CODE \<longrightarrow> ic"
    and "DP_classify_document p = DOCUMENTATION \<longrightarrow> idoc"
    and "DP_classify_document p = CONFIGURATION \<longrightarrow> ico"
    and "DP_classify_document p = TEST \<longrightarrow> it"
  then show "DP_should_include_file e p ic idoc ico it"
    by (simp add: DP_should_include_file_def Let_def)
qed

theorem hidden_paths_excluded_by_SC_witness:
  "(\<exists>part \<in> set (path_parts ''/proj/.hidden/util.py''). prefix ''.'' part) \<and>
   path_name ''/proj/.hidden/util.py'' \<notin> set SC_allowed_dotfiles \<and>
   \<not> SC_should_process_file ''/proj/.hidden/util.py'' {''all''} \<and>
   (\<exists>part \<in> set (path_parts ''/proj/.dockerignore''). prefix ''.'' part) \<and>
   path_name ''/proj/.dockerignore'' \<in> set SC_allowed_dotfiles \<and>
   \<not> (\<exists>skip_dir \<in> set SC_skip_dirs. sublist skip_dir (path_str ''/proj/.dockerignore'')) \<and>
   SC_should_process_file ''/proj/.dockerignore'' {''all''} \<and>
   \<not> (\<exists>excl \<in> set DP_exclusions. sublist excl (path_str ''/proj/.hidden/util.py'')) \<and>
   stat_walk demo_env ''/proj/.hidden/util.py'' = Some (demo_stat ''/proj/.hidden/util.py'') \<and>
   st_size (demo_stat ''/proj/.hidden/util.py'') \<le> 10 * 1024 * 1024 \<and>
   DP_classify_document ''/proj/.hidden/util.py'' = CODE \<and>
   DP_should_include_file demo_env ''/proj/.hidden/util.py'' True False False False"
proof -
  have a: "\<exists>part \<in> set (path_parts ''/proj/.hidden/util.py''). prefix ''.'' part" by code_simp
  have b: "path_name ''/proj/.hidden/util.py'' \<notin> set SC_allowed_dotfiles" by code_simp
  have c: "\<exists>part \<in> set (path_parts ''/proj/.dockerignore''). prefix ''.'' part" by code_simp
  have d: "path_name ''/proj/.dockerignore'' \<in> set SC_allowed_dotfiles" by code_simp
  have f: "\<not> (\<exists>skip_dir \<in> set SC_skip_dirs. sublist skip_dir (path_str ''/proj/.dockerignore''))"
    by code_simp
  have g: "\<not> (\<exists>excl \<in> set DP_exclusions. sublist excl (path_str ''/proj/.hidden/util.py''))"
    by code_simp
  have h: "stat_walk demo_env ''/proj/.hidden/util.py'' = Some (demo_stat ''/proj/.hidden/util.py'')"
    by (simp add: demo_env_def)
  have i: "st_size (demo_stat ''/proj/.hidden/util.py'') \<le> 10 * 1024 * 1024"
    by (simp add: demo_stat_def)
  have j: "DP_classify_document ''/proj/.hidden/util.py'' = CODE" by code_simp
  have j1: "DP_classify_document ''/proj/.hidden/util.py'' = CODE \<longrightarrow> True" by (rule impI) (rule TrueI)
  have j2: "DP_classify_document ''/proj/.hidden/util.py'' = DOCUMENTATION \<longrightarrow> False"
    and j3: "DP_classify_document ''/proj/.hidden/util.py'' = CONFIGURATION \<longrightarrow> False"
    and j4: "DP_classify_document ''/proj/.hidden/util.py'' = TEST \<longrightarrow> False"
    by (simp_all only: j DocumentType.distinct simp_thms)
  note t1 = hidden_paths_excluded_by_SC [of "''/proj/.hidden/util.py''" "{''all''}"]
  from t1 [THEN conjunct1, THEN mp, OF a, THEN mp, OF b]
  have k: "\<not> SC_should_process_file ''/proj/.hidden/util.py'' {''all''}" .
  note t2 = hidden_paths_excluded_by_SC [of "''/proj/.dockerignore''" "{''all''}"]
  have all: "''all'' \<in> {''all''}" by (rule singletonI)
  from t2 [THEN conjunct2, THEN conjunct1, THEN mp, OF d]
  have l: "SC_should_process_file ''/proj/.dockerignore'' {''all''}"
    by (rule iffD2) (intro conjI disjI1 f all)
  note t3 = hidden_paths_excluded_by_SC
         [of _ _ "''/proj/.hidden/util.py''" demo_env "demo_stat ''/proj/.hidden/util.py''"
             True False False False]
  from t3 [THEN conjunct2, THEN conjunct2, THEN mp, OF g, THEN mp, OF h, THEN mp, OF i,
           THEN mp, OF j1, THEN mp, OF j2, THEN mp, OF j3, THEN mp, OF j4]
  have m: "DP_should_include_file demo_env ''/proj/.hidden/util.py'' True False False False" .
  show ?thesis by (intro conjI a b c d f g h i j k l m)
qed

text \<open>
  Claim C5 as stated fails for \<open>_should_include_file\<close>, which has no rule for hidden
  paths: a code file in a hidden directory is included.
\<close>

theorem DP_includes_hidden_path:
  "''.hidden'' \<in> set (path_parts ''/proj/.hidden/util.py'') \<and> prefix ''.'' ''.hidden'' \<and>
   path_name ''/proj/.hidden/util.py'' \<notin> set SC_allowed_dotfiles \<and>
   DP_should_include_file demo_env ''/proj/.hidden/util.py'' True True False False"
  by code_simp

text \<open>
  Two of the three allowed names contain a token of the deny-list (\<open>.git\<close>, \<open>env\<close>), so the
  remaining rules reject them under every pattern.
\<close>

lemma SC_allowed_names_with_deny_tokens:
  "\<not> SC_should_process_file ''.gitignore'' pats \<and> \<not> SC_should_process_file ''.env.example'' pats"
proof
  have "''.git'' \<in> set SC_skip_dirs" by (simp add: SC_skip_dirs_def)
  moreover have "sublist ''.git'' (path_str ''.gitignore'')" by code_simp
  ultimately show "\<not> SC_should_process_file ''.gitignore'' pats" by (rule SC_skipped_token)
next
  have "''env'' \<in> set SC_skip_dirs" by (simp add: SC_skip_dirs_def)
  moreover have "sublist ''env'' (path_str ''.env.example'')" by code_simp
  ultimately show "\<not> SC_should_process_file ''.env.example'' pats" by (rule SC_skipped_token)
qed

text \<open>
  Claim C6, as the code has it. \<open>_should_include_file\<close> rejects a file whose \<open>stat\<close> fails
  and a file of more than \<open>10 * 1024 * 1024\<close> bytes. \<open>SuperClaudeDocumentProcessor\<close> has no
  size limit: a file that passes \<open>_should_process_file\<close> enters the worklist with the size
  that \<open>stat\<close> reports, whatever it is.
\<close>

theorem size_ceiling_enforced_by_DP:
  "(stat_walk e p = None \<longrightarrow> \<not> DP_should_include_file e p ic idoc ico it) \<and>
   (stat_walk e p = Some s \<longrightarrow> 10 * 1024 * 1024 < st_size s \<longrightarrow>
      \<not> DP_should_include_file e p ic idoc ico it) \<and>
   (is_file e fp = Inr True \<longrightarrow> SC_should_process_file (path_str fp) pats \<longrightarrow>
      stat_walk e fp = Some s' \<longrightarrow>
      (\<exists>m. SC_work_item e pid pats fp = Inr (Some (path_str fp, m)) \<and> size' m = st_size s'))"
  by (auto simp: DP_should_include_file_def SC_work_item_def)

theorem size_ceiling_enforced_by_DP_witness:
  "stat_walk demo_env ''/proj/broken.md'' = None \<and>
   \<not> DP_should_include_file demo_env ''/proj/broken.md'' True True True True \<and>
   stat_walk demo_env ''/proj/big.py'' = Some (demo_stat ''/proj/big.py'') \<and>
   10 * 1024 * 1024 < st_size (demo_stat ''/proj/big.py'') \<and>
   \<not> DP_should_include_file demo_env ''/proj/big.py'' True True True True \<and>
   is_file demo_env ''/proj/big.py'' = Inr True \<and>
   SC_should_process_file (path_str ''/proj/big.py'') {''code''} \<and>
   (\<exists>m. SC_work_item demo_env ''p1'' {''code''} ''/proj/big.py''
          = Inr (Some (path_str ''/proj/big.py'', m)) \<and>
        size' m = st_size (demo_stat ''/proj/big.py''))"
proof -
  have a: "stat_walk demo_env ''/proj/broken.md'' = None" by (simp add: demo_env_def)
  have b: "stat_walk demo_env ''/proj/big.py'' = Some (demo_stat ''/proj/big.py'')"
    by (simp add: demo_env_def)
  have c: "10 * 1024 * 1024 < st_size (demo_stat ''/proj/big.py'')"
    by (simp add: demo_stat_def)
  have g: "is_file demo_env ''/proj/big.py'' = Inr True" by (simp add: demo_env_def)
  have h: "SC_should_process_file (path_str ''/proj/big.py'') {''code''}" by code_simp
  from size_ceiling_enforced_by_DP
         [of demo_env "''/proj/broken.md''" True True True True] a
  have d: "\<not> DP_should_include_file demo_env ''/proj/broken.md'' True True True True"
    by blast
  from size_ceiling_enforced_by_DP
         [of demo_env "''/proj/big.py''" True True True True "demo_stat ''/proj/big.py''"
             "''/proj/big.py''" "{''code''}" "demo_stat ''/proj/big.py''" "''p1''"] b c g h
  have f: "\<not> DP_should_include_file demo_env ''/proj/big.py'' True True True True"
    and i: "\<exists>m. SC_work_item demo_env ''p1'' {''code''} ''/proj/big.py''
          = Inr (Some (path_str ''/proj/big.py'', m)) \<and>
        size' m = st_size (demo_stat ''/proj/big.py'')" by blast+
  from a b c d f g h i show ?thesis by blast
qed

text \<open>
  Claim C6 as stated fails for \<open>_should_process_file\<close> and the walk that calls it: a code
  file of 20 MiB passes the filter and enters the worklist with its size.
\<close>

theorem SC_includes_oversized_file:
  "SC_should_process_file ''/proj/big.py'' {''code''} \<and>
   map_sum id (map_option (\<lambda>w. size' (snd w)))
     (SC_work_item demo_env ''p1'' {''code''} ''/proj/big.py'') = Inr (Some 20971520) \<and>
   (10 * 1024 * 1024 :: int) < 20971520"
  by code_simp

section \<open>Metadata\<close>

text \<open>
  Claim C7, as the code has it. The language of a constructed metadata record is looked up
  from the lower-case extension alone, whatever the category: it is present exactly when the
  extension is in the processor's language table. So a code file has a language exactly when
  its extension is in the table, and a test or documentation file with such an extension
  (\<open>test_foo.py\<close>, \<open>index.html\<close>) carries a language too.
\<close>

theorem language_follows_extension_table:
  "(DP_metadata e pid p = Some m \<longrightarrow>
      (language m \<noteq> None \<longleftrightarrow> lower (path_suffix p) \<in> fst ` set DP_language_map)) \<and>
   (SC_work_item e pid pats fp = Inr (Some (q, m')) \<longrightarrow>
      (language m' \<noteq> None \<longleftrightarrow>
         lower (path_suffix (path_str fp)) \<in> fst ` set SC_extension_map))"
proof -
  have k: "\<And>xs (k::string). (map_of xs k \<noteq> (None :: string option)) = (k \<in> fst ` set xs)"
    by (simp add: map_of_eq_None_iff)
  have a: "DP_metadata e pid p = Some m \<Longrightarrow>
      language m = map_of DP_language_map (lower (path_suffix p))"
    by (auto simp: DP_metadata_def DP_detect_language_def split: option.splits)
  have b: "SC_work_item e pid pats fp = Inr (Some (q, m')) \<Longrightarrow>
      language m' = map_of SC_extension_map (lower (path_suffix (path_str fp)))"
    by (auto simp: SC_work_item_def SC_get_language_def split: sum.splits option.splits if_splits)
  show ?thesis using a b k by metis
qed

theorem language_follows_extension_table_witness:
  "DP_metadata demo_env ''p1'' ''/proj/tests/test_foo.py'' = Some demo_test_metadata \<and>
   SC_work_item demo_env ''p1'' {''tests''} ''/proj/tests/test_foo.py''
     = Inr (Some (''/proj/tests/test_foo.py'', demo_test_metadata)) \<and>
   language demo_test_metadata \<noteq> None \<and>
   lower (path_suffix ''/proj/tests/test_foo.py'') \<in> fst ` set DP_language_map \<and>
   lower (path_suffix (path_str ''/proj/tests/test_foo.py'')) \<in> fst ` set SC_extension_map"
proof -
  have a: "DP_metadata demo_env ''p1'' ''/proj/tests/test_foo.py'' = Some demo_test_metadata"
    by code_simp
  have b: "SC_work_item demo_env ''p1'' {''tests''} ''/proj/tests/test_foo.py''
     = Inr (Some (''/proj/tests/test_foo.py'', demo_test_metadata))"
    by code_simp
  have c: "language demo_test_metadata \<noteq> None" by (simp add: demo_test_metadata_def)
  from language_follows_extension_table
         [of demo_env "''p1''" "''/proj/tests/test_foo.py''" demo_test_metadata
             "{''tests''}" "''/proj/tests/test_foo.py''" "''/proj/tests/test_foo.py''"
             demo_test_metadata] a b c
  show ?thesis by blast
qed

text \<open>
  Claim C7 as stated fails: a Python test file is classified \<open>TEST\<close> and its metadata
  carries the language \<open>python\<close>, in both processors.
\<close>

theorem test_file_carries_language:
  "map_option (\<lambda>m. (file_type m, language m))
     (DP_metadata demo_env ''p1'' ''/proj/tests/test_foo.py'') = Some (TEST, Some ''python'') \<and>
   map_sum id (map_option (\<lambda>w. (file_type (snd w), language (snd w))))
     (SC_work_item demo_env ''p1'' {''tests''} ''/proj/tests/test_foo.py'')
       = Inr (Some (TEST, Some ''python''))"
  by code_simp

section \<open>The results of the health checks\<close>

text \<open>
  Claim C9, as the code has it. Both health checks return true exactly when the GET yields
  the status 200; every other status, and every exception of the request (connection
  failure, timeout), yields false, and nothing is raised to the caller.
\<close>

theorem health_check_true_iff_200:
  "RAGClient_health_check r = Inr (r = Inr 200) \<and> SC_health_check r = Inr (r = Inr 200)"
  by (cases r) (auto simp: RAGClient_health_check_def SC_health_check_def health_body_def)

theorem health_check_true_iff_200_witness:
  "RAGClient_health_check (Inr 200) = Inr True \<and>
   RAGClient_health_check (Inr 503) = Inr False \<and>
   RAGClient_health_check (Inl TimeoutError) = Inr False \<and>
   SC_health_check (Inr 200) = Inr True \<and>
   SC_health_check (Inr 503) = Inr False \<and>
   SC_health_check (Inl ClientError) = Inr False"
  using health_check_true_iff_200 [of "Inr 200"] health_check_true_iff_200 [of "Inr 503"]
    health_check_true_iff_200 [of "Inl TimeoutError"] health_check_true_iff_200 [of "Inl ClientError"]
  by simp

text \<open>
  Claim C9 as stated fails: the status 204 is a 2xx status and both health checks return
  false for it.
\<close>

theorem health_check_false_on_204:
  "(200 :: int) \<le> 204 \<and> (204 :: int) < 300 \<and>
   RAGClient_health_check (Inr 204) = Inr False \<and> SC_health_check (Inr 204) = Inr False"
  by (simp add: RAGClient_health_check_def SC_health_check_def health_body_def)

section \<open>Runs\<close>





text \<open>
  Claim C8, as the code has it. When the existence test on the root path returns false the
  run stops before anything is enumerated or uploaded, with an error and no statistics:
  \<open>SuperClaudeDocumentProcessor.index_project\<close> (and the client calling it) raises
  \<open>ValueError\<close>; \<open>DocumentProcessor.process_project\<close> returns the dictionary that holds
  only the \<open>error\<close> key, which \<open>RAGClient.index_project\<close> hands to its caller unchanged.
  When \<open>Path.resolve\<close>, which \<open>process_project\<close> calls before the test, or the test itself
  raises, \<open>process_project\<close> raises that exception and \<open>RAGClient.index_project\<close> returns
  its dictionary of the keys \<open>error\<close>, \<open>total_files = 0\<close>, \<open>successful = 0\<close>, \<open>failed = 1\<close>;
  \<open>index_project\<close> raises the exception of its test. Nothing is uploaded in any of these
  cases.
\<close>

theorem missing_root_is_fatal:
  "(path_exists e (path_str project_path) = Inr False \<longrightarrow>
      SC_index_project e pid project_path pats recursive b =
        (Inl (ValueError (''Project path does not exist: '' @ path_str project_path)), []) \<and>
      SCClient_index_project e pid project_path ic idoc ico it recursive =
        (Inl (ValueError (''Project path does not exist: '' @ path_str project_path)), [])) \<and>
   (path_exists e (path_str project_path) = Inl x \<longrightarrow>
      SC_index_project e pid project_path pats recursive b = (Inl x, []) \<and>
      SCClient_index_project e pid project_path ic idoc ico it recursive = (Inl x, [])) \<and>
   (resolve e project_path = Inr project_dir \<longrightarrow> path_exists e project_dir = Inr False \<longrightarrow>
      DP_process_project e pid project_path ic idoc ico it recursive =
        (Inr (Error_dict (''Project path does not exist: '' @ project_path)), []) \<and>
      RAGClient_index_project e pid project_path ic idoc ico it recursive =
        (Returned (Error_dict (''Project path does not exist: '' @ project_path)), [])) \<and>
   (resolve e project_path = Inl x \<or>
    resolve e project_path = Inr project_dir \<and> path_exists e project_dir = Inl x \<longrightarrow>
      DP_process_project e pid project_path ic idoc ico it recursive = (Inl x, []) \<and>
      RAGClient_index_project e pid project_path ic idoc ico it recursive =
        (Failed_dict (exn_str x) 0 0 1, []))"
proof (intro conjI impI)
  assume "path_exists e (path_str project_path) = Inr False"
  then show "SC_index_project e pid project_path pats recursive b =
        (Inl (ValueError (''Project path does not exist: '' @ path_str project_path)), [])"
    and "SCClient_index_project e pid project_path ic idoc ico it recursive =
        (Inl (ValueError (''Project path does not exist: '' @ path_str project_path)), [])"
    by (simp_all add: SC_index_project_def SCClient_index_project_def)
next
  assume "path_exists e (path_str project_path) = Inl x"
  then show "SC_index_project e pid project_path pats recursive b = (Inl x, [])"
    and "SCClient_index_project e pid project_path ic idoc ico it recursive = (Inl x, [])"
    by (simp_all add: SC_index_project_def SCClient_index_project_def)
next
  assume "resolve e project_path = Inr project_dir" and "path_exists e project_dir = Inr False"
  then show "DP_process_project e pid project_path ic idoc ico it recursive =
        (Inr (Error_dict (''Project path does not exist: '' @ project_path)), [])"
    and "RAGClient_index_project e pid project_path ic idoc ico it recursive =
        (Returned (Error_dict (''Project path does not exist: '' @ project_path)), [])"
    by (simp_all add: DP_process_project_def RAGClient_index_project_def)
next
  assume "resolve e project_path = Inl x \<or>
    resolve e project_path = Inr project_dir \<and> path_exists e project_dir = Inl x"
  then have r: "DP_process_project e pid project_path ic idoc ico it recursive = (Inl x, [])"
    by (auto simp: DP_process_project_def)
  then show "DP_process_project e pid project_path ic idoc ico it recursive = (Inl x, [])" .
  from r show "RAGClient_index_project e pid project_path ic idoc ico it recursive =
        (Failed_dict (exn_str x) 0 0 1, [])"
    by (simp add: RAGClient_index_project_def)
qed

theorem missing_root_is_fatal_witness:
  "path_exists demo_env (path_str ''/nowhere'') = Inr False \<and>
   resolve demo_env ''/nowhere'' = Inr ''/nowhere'' \<and>
   path_exists demo_env ''/nowhere'' = Inr False \<and>
   SC_index_project demo_env ''p1'' ''/nowhere'' {''code'', ''docs''} True 10 =
     (Inl (ValueError ''Project path does not exist: /nowhere''), []) \<and>
   SCClient_index_project demo_env ''p1'' ''/nowhere'' True True False False True =
     (Inl (ValueError ''Project path does not exist: /nowhere''), []) \<and>
   DP_process_project demo_env ''p1'' ''/nowhere'' True True False False True =
     (Inr (Error_dict ''Project path does not exist: /nowhere''), []) \<and>
   RAGClient_index_project demo_env ''p1'' ''/nowhere'' True True False False True =
     (Returned (Error_dict ''Project path does not exist: /nowhere''), []) \<and>
   resolve demo_env ''/loop'' = Inl (RuntimeError ''Symlink loop from /loop'') \<and>
   DP_process_project demo_env ''p1'' ''/loop'' True True False False True =
     (Inl (RuntimeError ''Symlink loop from /loop''), []) \<and>
   RAGClient_index_project demo_env ''p1'' ''/loop'' True True False False True =
     (Failed_dict (exn_str (RuntimeError ''Symlink loop from /loop'')) 0 0 1, [])"
proof -
  have s: "path_str ''/nowhere'' = ''/nowhere''" by code_simp
  have a: "path_exists demo_env (path_str ''/nowhere'') = Inr False" by code_simp
  have b: "resolve demo_env ''/nowhere'' = Inr ''/nowhere''" by (simp add: demo_env_def)
  have c: "path_exists demo_env ''/nowhere'' = Inr False" by (simp add: demo_env_def)
  have d: "resolve demo_env ''/loop'' = Inl (RuntimeError ''Symlink loop from /loop'')"
    by (simp add: demo_env_def)
  note t1 = missing_root_is_fatal
         [where e = demo_env and project_path = "''/nowhere''" and pid = "''p1''"
            and pats = "{''code'', ''docs''}" and recursive = True and b = 10
            and ic = True and idoc = True and ico = False and it = False
            and project_dir = "''/nowhere''"]
  from t1 [THEN conjunct1, THEN mp, OF a]
  have f: "SC_index_project demo_env ''p1'' ''/nowhere'' {''code'', ''docs''} True 10 =
     (Inl (ValueError ''Project path does not exist: /nowhere''), [])"
    and g: "SCClient_index_project demo_env ''p1'' ''/nowhere'' True True False False True =
     (Inl (ValueError ''Project path does not exist: /nowhere''), [])"
    by (simp_all only: s append.simps)
  from t1 [THEN conjunct2, THEN conjunct2, THEN conjunct1, THEN mp, OF b, THEN mp, OF c]
  have h: "DP_process_project demo_env ''p1'' ''/nowhere'' True True False False True =
     (Inr (Error_dict ''Project path does not exist: /nowhere''), [])"
    and i: "RAGClient_index_project demo_env ''p1'' ''/nowhere'' True True False False True =
     (Returned (Error_dict ''Project path does not exist: /nowhere''), [])"
    by (simp_all only: append.simps)
  note t2 = missing_root_is_fatal
         [where e = demo_env and project_path = "''/loop''" and pid = "''p1''"
            and recursive = True and ic = True and idoc = True and ico = False and it = False
            and x = "RuntimeError ''Symlink loop from /loop''"]
  from t2 [THEN conjunct2, THEN conjunct2, THEN conjunct2, THEN mp, OF disjI1, OF d]
  have j: "DP_process_project demo_env ''p1'' ''/loop'' True True False False True =
     (Inl (RuntimeError ''Symlink loop from /loop''), [])"
    and k: "RAGClient_index_project demo_env ''p1'' ''/loop'' True True False False True =
     (Failed_dict (exn_str (RuntimeError ''Symlink loop from /loop'')) 0 0 1, [])"
    by simp_all
  show ?thesis by (intro conjI a b c d f g h i j k)
qed

text \<open>
  Claim C8 as stated fails for \<open>RAGClient.index_project\<close>: the path \<open>/loop\<close> does not
  exist, \<open>resolve\<close> raises for it, and the caller receives no exception but a dictionary
  with statistics keys, one of them not zero.
\<close>

theorem missing_root_reported_with_counts:
  "path_exists demo_env ''/loop'' = Inr False \<and>
   RAGClient_index_project demo_env ''p1'' ''/loop'' True True False False True =
     (Failed_dict ''Symlink loop from /loop'' 0 0 1, [])"
  by (simp add: RAGClient_index_project_def DP_process_project_def exn_str_def demo_env_def)






lemma demo_run_counts:
  "map_sum id total_files (fst (SC_index_project demo_env ''p1'' ''/proj'' {''code'', ''docs''} True 2)) = Inr 4"
  "map_sum id successful (fst (SC_index_project demo_env ''p1'' ''/proj'' {''code'', ''docs''} True 2)) = Inr 3"
  "map_sum id failed (fst (SC_index_project demo_env ''p1'' ''/proj'' {''code'', ''docs''} True 2)) = Inr 1"
  by code_simp+

subsection \<open>Counts by type\<close>

text \<open>
  Claim C2, as the code has it. In \<open>DocumentProcessor.process_project\<close> a work item whose
  metadata was constructed increments the count of its category whether its upload succeeds
  or fails, so the by-type counts are the numbers of processed items per category. In
  \<open>SuperClaudeDocumentProcessor.index_project\<close> a failed upload (\<open>False\<close> or an exception)
  leaves \<open>by_type\<close> unchanged, so the by-type counts are the numbers of successfully
  uploaded items per category.
\<close>

theorem by_type_counts_per_processor:
  "(DP_metadata e pid p = Some m \<longrightarrow> \<not> DP_upload_document e p \<longrightarrow>
      failed (fst (DP_process_file e pid (i, p) acc)) = failed (fst acc) + 1 \<and>
      tally (by_type (fst (DP_process_file e pid (i, p) acc))) (type_value (file_type m))
        = tally (by_type (fst acc)) (type_value (file_type m)) + 1) \<and>
   tally (by_type (fst (DP_upload_loop e pid fs))) t =
     length (filter (\<lambda>p. stat_run e p \<noteq> None \<and> type_value (DP_classify_document p) = t) fs) \<and>
   (result \<noteq> Inr True \<longrightarrow>
      failed (SC_record_result (w, result) st) = failed st + 1 \<and>
      by_type (SC_record_result (w, result) st) = by_type st) \<and>
   (1 \<le> batch_size \<longrightarrow>
      (\<exists>st'. fst (SC_upload_batches e files batch_size) = Inr st' \<and>
         tally (by_type st') t =
           length (filter (\<lambda>w. SC_upload_document e (fst w) \<and>
                                type_value (file_type (snd w)) = t) files)))"
proof (intro conjI impI)
  assume md: "DP_metadata e pid p = Some m" and up: "\<not> DP_upload_document e p"
  from md have ft: "file_type m = DP_classify_document p" and sr: "stat_run e p \<noteq> None"
    by (auto simp: DP_metadata_def Let_def split: option.splits)
  from md up show "failed (fst (DP_process_file e pid (i, p) acc)) = failed (fst acc) + 1"
    by (simp add: DP_process_file_def Let_def)
  from sr show "tally (by_type (fst (DP_process_file e pid (i, p) acc))) (type_value (file_type m))
        = tally (by_type (fst acc)) (type_value (file_type m)) + 1"
    by (simp add: DP_process_file_tally ft)
next
  show "tally (by_type (fst (DP_upload_loop e pid fs))) t =
     length (filter (\<lambda>p. stat_run e p \<noteq> None \<and> type_value (DP_classify_document p) = t) fs)"
    by (rule DP_upload_loop_tally)
next
  assume r: "result \<noteq> Inr True"
  then show "failed (SC_record_result (w, result) st) = failed st + 1"
    by (cases result) (simp_all add: SC_record_result_def Let_def)
  from r show "by_type (SC_record_result (w, result) st) = by_type st"
    by (cases result) (simp_all add: SC_record_result_def Let_def)
next
  assume b: "1 \<le> batch_size"
  from SC_upload_batches_result [OF b, of e files]
  show "\<exists>st'. fst (SC_upload_batches e files batch_size) = Inr st' \<and>
         tally (by_type st') t =
           length (filter (\<lambda>w. SC_upload_document e (fst w) \<and>
                                type_value (file_type (snd w)) = t) files)"
    by blast
qed

theorem by_type_counts_per_processor_witness:
  "DP_metadata demo_env ''p1'' ''/proj/README.md'' = Some demo_readme_metadata \<and>
   \<not> DP_upload_document demo_env ''/proj/README.md'' \<and>
   failed (fst (DP_process_file demo_env ''p1'' (0, ''/proj/README.md'') (demo_stats0, [])))
     = failed (fst (demo_stats0, [])) + 1 \<and>
   tally (by_type (fst (DP_process_file demo_env ''p1'' (0, ''/proj/README.md'') (demo_stats0, []))))
       (type_value (file_type demo_readme_metadata))
     = tally (by_type (fst (demo_stats0, []))) (type_value (file_type demo_readme_metadata)) + 1 \<and>
   (Inr False :: exn + bool) \<noteq> Inr True \<and>
   failed (SC_record_result ((''/proj/README.md'', demo_readme_metadata), Inr False) demo_stats0)
     = failed demo_stats0 + 1 \<and>
   by_type (SC_record_result ((''/proj/README.md'', demo_readme_metadata), Inr False) demo_stats0)
     = by_type demo_stats0 \<and>
   (1 :: int) \<le> 10 \<and>
   (\<exists>st'. fst (SC_upload_batches demo_env [(''/proj/README.md'', demo_readme_metadata)] 10) = Inr st' \<and>
      tally (by_type st') ''documentation'' =
        length (filter (\<lambda>w. SC_upload_document demo_env (fst w) \<and>
                             type_value (file_type (snd w)) = ''documentation'')
                  [(''/proj/README.md'', demo_readme_metadata)]))"
proof -
  have a: "DP_metadata demo_env ''p1'' ''/proj/README.md'' = Some demo_readme_metadata"
    by code_simp
  have b: "\<not> DP_upload_document demo_env ''/proj/README.md''" by code_simp
  from by_type_counts_per_processor
         [of demo_env "''p1''" "''/proj/README.md''" demo_readme_metadata 0 "(demo_stats0, [])"
             _ _ "Inr False" "(''/proj/README.md'', demo_readme_metadata)" demo_stats0
             10 "[(''/proj/README.md'', demo_readme_metadata)]"] a b
  show ?thesis by simp
qed

text \<open>
  Claim C2 as stated fails for \<open>SuperClaudeDocumentProcessor.index_project\<close>: the readme
  of the project is in the worklist with its metadata, its upload fails and is counted as
  failed, and no documentation count is recorded.
\<close>

theorem SC_failed_upload_not_tallied:
  "map_sum id (map_option (file_type \<circ> snd))
     (SC_work_item demo_env ''p1'' {''code'', ''docs''} ''/proj/README.md'')
       = Inr (Some DOCUMENTATION) \<and>
   \<not> SC_upload_document demo_env ''/proj/README.md'' \<and>
   map_sum id failed
     (fst (SC_index_project demo_env ''p1'' ''/proj'' {''code'', ''docs''} True 10)) = Inr 1 \<and>
   map_sum id (\<lambda>st. by_type st ''documentation'')
     (fst (SC_index_project demo_env ''p1'' ''/proj'' {''code'', ''docs''} True 10)) = Inr None \<and>
   map_sum id (\<lambda>st. by_type st ''code'')
     (fst (SC_index_project demo_env ''p1'' ''/proj'' {''code'', ''docs''} True 10)) = Inr (Some 3)"
  by code_simp

section \<open>Batches and the order of uploads\<close>






text \<open>
  The log of the run over ten items with batch size 3, under the scheduler of the example:
  within a batch the uploads settle in another order than they began.
\<close>

lemma demo_worklist_events:
  "snd (SC_upload_batches demo_env demo_worklist 3) =
     [Begin 0, Begin 1, Begin 2, Settled 1, Settled 2, Settled 0,
      Begin 3, Begin 4, Begin 5, Settled 4, Settled 5, Settled 3,
      Begin 6, Begin 7, Begin 8, Settled 7, Settled 8, Settled 6,
      Begin 9, Settled 9]"
  by code_simp

end
